(* ===== verification/Prelude.thy ===== *)
theory Prelude
  imports Main "HOL-Library.Sublist"
begin

text \<open>
  Shared vocabulary of the development: the string type of the Go program (a Go
  \<open>string\<close> is a byte sequence; Isabelle's \<open>char\<close> is a byte, so \<open>string\<close> models it
  exactly), the quote characters that Isabelle string literals cannot hold, the
  search for the first occurrence of a delimiter that both the template lexer and
  the flag parser use, and the list lemmas the component proofs share.
\<close>

type_synonym go_string = string

named_theorems prefix_simps \<open>evaluation of prefix tests on concrete strings\<close>
named_theorems split_on_simps \<open>facts about the first-occurrence search\<close>

subsection \<open>Characters that string literals cannot hold\<close>

definition dquote :: char where
  "dquote = CHR 0x22"

definition squote :: char where
  "squote = CHR 0x27"

definition lbrace :: char where
  "lbrace = CHR ''{''"

definition nul :: char where
  "nul = CHR 0x00"

subsection \<open>First occurrence of a delimiter\<close>

text \<open>
  \<open>split_on d s\<close> finds the first occurrence of \<open>d\<close> in \<open>s\<close> and returns the text
  before it and the text after it, as Go's \<open>strings.Index\<close> followed by slicing
  does; \<open>None\<close> when \<open>d\<close> does not occur.
\<close>

fun split_on :: "string \<Rightarrow> string \<Rightarrow> (string \<times> string) option" where
  "split_on d [] = (if d = [] then Some ([], []) else None)"
| "split_on d (c # s) =
     (if prefix d (c # s) then Some ([], drop (length d) (c # s))
      else map_option (apfst (Cons c)) (split_on d s))"

subsection \<open>Fixed texts woven with variable parts\<close>

text \<open>
  Fixed texts woven with variable parts, as a template renders: \<open>cc\<close> occurs in the
  whole exactly when it occurs in a variable part, if no fixed text holds \<open>c\<close>.
\<close>

fun weave :: "'a list \<Rightarrow> ('a list \<times> 'a list) list \<Rightarrow> 'a list" where
  "weave t [] = t"
| "weave t ((x, t') # r) = t @ x @ weave t' r"

subsection \<open>Prefix tests\<close>

lemma prefix_Cons_Cons [prefix_simps]:
  "prefix (x # xs) (y # ys) \<longleftrightarrow> x = y \<and> prefix xs ys"
  by simp

lemma prefix_Cons_Nil [prefix_simps]: "\<not> prefix (x # xs) []"
  by simp

lemma prefix_append_same [prefix_simps]: "prefix xs (xs @ ys)"
  by simp

lemma sublist_singleton [simp]: "sublist [x] ys \<longleftrightarrow> x \<in> set ys"
  by (induction ys) (auto simp: sublist_Cons_right)

lemma split_on_Some [split_on_simps]:
  "split_on d s = Some (b, a) \<Longrightarrow> s = b @ d @ a"
proof (induction d s arbitrary: b rule: split_on.induct)
  case (1 d)
  then show ?case by (simp split: if_splits)
next
  case (2 d c s)
  show ?case
  proof (cases "prefix d (c # s)")
    case True
    with "2.prems" show ?thesis by (auto simp: prefix_def)
  next
    case False
    with "2.prems" obtain b' where "split_on d s = Some (b', a)" and "b = c # b'"
      by auto
    with "2.IH" False show ?thesis by simp
  qed
qed

lemma split_on_length [split_on_simps]:
  "split_on d s = Some (b, a) \<Longrightarrow> length a + length d \<le> length s"
  by (drule split_on_Some) simp

lemma split_on_None [split_on_simps]:
  "split_on d s = None \<longleftrightarrow> \<not> sublist d s"
proof (induction d s rule: split_on.induct)
  case (1 d)
  then show ?case by simp
next
  case (2 d c s)
  then show ?case
    by (auto simp: sublist_Cons_right)
qed

text \<open>The text before the first occurrence does not contain the delimiter.\<close>

lemma prefix_butlast_append [prefix_simps]: "prefix (butlast d) (d @ a)"
  by (metis prefix_append prefixeq_butlast)

lemma split_on_first [split_on_simps]:
  "split_on d s = Some (b, a) \<Longrightarrow> d \<noteq> [] \<Longrightarrow> \<not> sublist d (b @ butlast d)"
proof (induction d s arbitrary: b rule: split_on.induct)
  case (1 d)
  then show ?case by (simp split: if_splits)
next
  case (2 d c s)
  show ?case
  proof (cases "prefix d (c # s)")
    case True
    with "2.prems" have "b = []" by auto
    have "\<not> sublist d (butlast d)"
    proof
      assume "sublist d (butlast d)"
      then have "length d \<le> length (butlast d)" by (rule sublist_length_le)
      moreover from "2.prems"(2) have "0 < length d" by simp
      ultimately show False by (simp only: length_butlast)
    qed
    with \<open>b = []\<close> show ?thesis by simp
  next
    case False
    with "2.prems" obtain b' where b': "split_on d s = Some (b', a)" and b: "b = c # b'"
      by auto
    from "2.IH" [OF False b' "2.prems"(2)] have "\<not> sublist d (b' @ butlast d)" .
    moreover from b' have "s = b' @ d @ a" by (rule split_on_Some)
    then have "prefix (c # b' @ butlast d) (c # s)"
      by (simp add: prefix_butlast_append)
    with False have "\<not> prefix d (c # b' @ butlast d)"
      by (meson prefix_order.trans)
    ultimately show ?thesis
      using b by (simp add: sublist_Cons_right)
  qed
qed

text \<open>Conversely, an occurrence with no earlier one is the one found.\<close>

lemma split_on_append_first [split_on_simps]:
  assumes "d \<noteq> []" and "\<not> sublist d (b @ butlast d)"
  shows "split_on d (b @ d @ a) = Some (b, a)"
  using assms(2)
proof (induction b)
  case Nil
  from \<open>d \<noteq> []\<close> obtain c s where eq: "d @ a = c # s" by (cases d) auto
  have "prefix d (c # s)" by (simp flip: eq)
  then have "split_on d (c # s) = Some ([], drop (length d) (c # s))" by simp
  then show ?case by (simp add: eq [symmetric])
next
  case (Cons c b)
  have no_pre: "\<not> prefix d (c # b @ d @ a)"
  proof
    assume p: "prefix d (c # b @ d @ a)"
    have "prefix (c # b @ butlast d) (c # b @ d @ a)"
      by (simp add: prefix_butlast_append)
    moreover have "length d \<le> length (c # b @ butlast d)"
      using \<open>d \<noteq> []\<close> by simp
    ultimately have "prefix d (c # b @ butlast d)"
      using p prefix_length_prefix by blast
    then have "sublist d ((c # b) @ butlast d)" by simp
    with Cons.prems show False by contradiction
  qed
  from Cons.prems have "\<not> sublist d (b @ butlast d)"
    by (simp add: sublist_Cons_right)
  then have "split_on d (b @ d @ a) = Some (b, a)" by (rule Cons.IH)
  with no_pre show ?case by simp
qed

subsection \<open>Occurrences of a doubled character\<close>

text \<open>A non-empty separator without the character \<open>c\<close> cannot be crossed by \<open>cc\<close>.\<close>

lemma sublist_pair_sep:
  assumes "c \<notin> set t" and "t \<noteq> []"
  shows "sublist [c, c] (a @ t @ b) \<longleftrightarrow> sublist [c, c] a \<or> sublist [c, c] b"
proof
  assume "sublist [c, c] (a @ t @ b)"
  moreover from assms have "\<not> sublist [c, c] t" using sublist_singleton [of c t]
    by (meson sublist_order.dual_order.trans sublist_Cons_right prefix_Cons prefix_imp_sublist set_ConsD)
  moreover have "\<not> prefix [c] (t @ b)" using assms by (cases t) auto
  moreover have "\<not> prefix [c, c] (t @ b)" using assms by (cases t) auto
  moreover have "\<not> suffix [c] t" using assms by (auto simp: suffix_def)
  moreover have "\<not> prefix [c] t" using assms by (cases t) auto
  ultimately show "sublist [c, c] a \<or> sublist [c, c] b"
    by (auto simp: sublist_append append_eq_Cons_conv Cons_eq_append_conv)
next
  assume "sublist [c, c] a \<or> sublist [c, c] b"
  then show "sublist [c, c] (a @ t @ b)"
    by (auto simp: sublist_append)
qed
text \<open>Stripping from the end a list that does not end in a stripped element.\<close>

lemma dropWhile_rev_last: "xs \<noteq> [] \<Longrightarrow> \<not> P (last xs) \<Longrightarrow> dropWhile P (rev xs) = rev xs"
  by (induction xs rule: rev_induct) auto

lemma weave_head: "weave t r = t @ weave [] r"
  by (cases r) auto

lemma sublist_pair_weave:
  assumes "c \<notin> set t" and "t \<noteq> []" and "\<forall>(x, t') \<in> set r. c \<notin> set t' \<and> t' \<noteq> []"
  shows "sublist [c, c] (weave t r) \<longleftrightarrow> (\<exists>(x, t') \<in> set r. sublist [c, c] x)"
  using assms
proof (induction r arbitrary: t)
  case Nil
  have "\<not> sublist [c, c] t"
  proof
    assume "sublist [c, c] t"
    with Nil.prems(1) show False by (auto simp: sublist_def)
  qed
  then show ?case by simp
next
  case (Cons xt r)
  obtain x t' where xt: "xt = (x, t')" by fastforce
  with Cons.prems have t': "c \<notin> set t'" "t' \<noteq> []" by auto
  have ih: "sublist [c, c] (weave t' r) \<longleftrightarrow> (\<exists>(x, t') \<in> set r. sublist [c, c] x)"
    using Cons.prems t' xt by (intro Cons.IH) auto
  have "sublist [c, c] (weave t' r) \<longleftrightarrow> sublist [c, c] (weave [] r)"
    using sublist_pair_sep [OF t', of "[]" "weave [] r"] weave_head [of t' r] by simp
  moreover have "sublist [c, c] ((t @ x) @ t' @ weave [] r) \<longleftrightarrow>
      sublist [c, c] (t @ x) \<or> sublist [c, c] (weave [] r)"
    by (rule sublist_pair_sep [OF t'])
  moreover have "sublist [c, c] (t @ x) \<longleftrightarrow> sublist [c, c] x"
    using sublist_pair_sep [OF Cons.prems(1,2), of "[]" x] by simp
  ultimately show ?case
    using ih xt weave_head [of t' r] by auto
qed

end
