(* ===== verification/Process.thy ===== *)
theory Process
  imports Prelude
begin

text \<open>
  The process the program runs in, as explicit state: what has been written to
  standard output and standard error, and whether the process still runs. The
  effects \<open>main\<close> has are the operations of \<open>io_op\<close>: \<open>fmt.Printf\<close> and the
  template's writes to \<open>os.Stdout\<close>, the flag package's writes to \<open>os.Stderr\<close>,
  \<open>os.Exit\<close>, and \<open>panic\<close>. \<open>os.Exit\<close> and \<open>panic\<close> do not return: once the
  process has stopped, every later operation leaves the state as it is, so the
  code after them is modelled by running it on a stopped state.
\<close>

datatype exit_status =
    Running
  | Exited int            \<comment> \<open>\<open>os.Exit(code)\<close>, or code 0 on return from \<open>main\<close>\<close>
  | Panicked go_string    \<comment> \<open>an unrecovered \<open>panic\<close>; Go then exits with status 2\<close>

datatype stderr_item =
    Err_text go_string
  | Usage                 \<comment> \<open>the flag package's listing of the defined flags\<close>

record world =
  stdout :: go_string
  stderr :: "stderr_item list"
  status :: exit_status

definition initial_world :: world where
  "initial_world = \<lparr>stdout = [], stderr = [], status = Running\<rparr>"

definition running :: "world \<Rightarrow> bool" where
  "running w \<longleftrightarrow> status w = Running"

datatype io_op =
    Write_stdout go_string
  | Write_stderr stderr_item
  | Os_exit int
  | Go_panic go_string

fun io_step :: "io_op \<Rightarrow> world \<Rightarrow> world" where
  "io_step (Write_stdout s) w = (if running w then w\<lparr>stdout := stdout w @ s\<rparr> else w)"
| "io_step (Write_stderr e) w = (if running w then w\<lparr>stderr := stderr w @ [e]\<rparr> else w)"
| "io_step (Os_exit c) w = (if running w then w\<lparr>status := Exited c\<rparr> else w)"
| "io_step (Go_panic m) w =
     (if running w
      then w\<lparr>stderr := stderr w @ [Err_text (''panic: '' @ m @ ''\<newline>'')], status := Panicked m\<rparr>
      else w)"

definition io_run :: "io_op list \<Rightarrow> world \<Rightarrow> world" where
  "io_run ops w = fold io_step ops w"

subsection \<open>Basic facts\<close>

lemma running_initial [simp]: "running initial_world"
  by (simp add: running_def initial_world_def)

lemma io_step_stopped [simp]: "\<not> running w \<Longrightarrow> io_step op w = w"
  by (cases op) simp_all

lemma io_run_stopped: "\<not> running w \<Longrightarrow> io_run ops w = w"
  by (induction ops) (simp_all add: io_run_def)

lemma running_status_update [simp]: "running (w\<lparr>status := st\<rparr>) \<longleftrightarrow> st = Running"
  by (simp add: running_def)

lemma running_output_update [simp]:
  "running (w\<lparr>stdout := out\<rparr>) = running w"
  "running (w\<lparr>stderr := err\<rparr>) = running w"
  by (simp_all add: running_def)

lemma io_step_exit_stops: "\<not> running (io_step (Os_exit c) w)"
  by (simp add: running_def)

lemma io_step_panic_stops: "\<not> running (io_step (Go_panic m) w)"
  by (simp add: running_def)

lemma io_step_write_running [simp]:
  "running (io_step (Write_stdout s) w) = running w"
  "running (io_step (Write_stderr e) w) = running w"
  by (simp_all add: running_def)

text \<open>Output is only ever appended to.\<close>

lemma io_step_stdout_prefix: "prefix (stdout w) (stdout (io_step op w))"
  by (cases op) auto

lemma io_run_stdout_prefix: "prefix (stdout w) (stdout (io_run ops w))"
proof (induction ops arbitrary: w)
  case Nil
  then show ?case by (simp add: io_run_def)
next
  case (Cons op ops)
  have "prefix (stdout w) (stdout (io_step op w))" by (rule io_step_stdout_prefix)
  moreover have "prefix (stdout (io_step op w)) (stdout (io_run ops (io_step op w)))"
    by (rule Cons.IH)
  ultimately show ?case by (simp add: io_run_def)
qed

end
