(* ===== verification/Go_Flag.thy ===== *)
theory Go_Flag
  imports Prelude
begin

text \<open>
  The command-line front end: Go's \<open>flag\<close> package as \<open>main\<close> uses it (lines 50--57
  of src/tools/cli/swissknife.go). The flag set is a map from flag name to the
  flag's current value; \<open>flag.String\<close> adds a flag with its default, and
  \<open>flag.Parse\<close> (the loop of \<open>FlagSet.parseOne\<close> under \<open>ExitOnError\<close>) reads the
  arguments \<open>os.Args[1:]\<close>. The package is library code, modelled after its
  documented behaviour: \<open>-f=v\<close>, \<open>--f=v\<close>, \<open>-f v\<close> and \<open>--f v\<close> set a string flag
  (the last setting wins), \<open>--\<close> or the first argument that is not a flag ends
  parsing, \<open>-h\<close>/\<open>-help\<close> ask for the usage, and a malformed or undefined flag, or
  a flag with no value, is an error. Only string flags are modelled (the program
  defines no other kind).
\<close>

type_synonym flag_set = "string \<rightharpoonup> go_string"

datatype flag_outcome =
    Flags_parsed flag_set "go_string list"   \<comment> \<open>final values, arguments left over\<close>
  | Flags_failed go_string                   \<comment> \<open>\<open>failf\<close>: message, then usage, exit 2\<close>
  | Flags_help                               \<comment> \<open>\<open>ErrHelp\<close>: usage, exit 0\<close>

subsection \<open>Defining flags\<close>

text \<open>
  \<open>flag.String(name, value, usage)\<close> defines a flag with a default value; defining
  a name twice panics (\<open>None\<close>). The usage text is not modelled.
\<close>

definition flag_string :: "string \<Rightarrow> go_string \<Rightarrow> flag_set \<Rightarrow> flag_set option" where
  "flag_string name value fs = (if fs name = None then Some (fs(name \<mapsto> value)) else None)"

text \<open>Dereferencing the \<open>*string\<close> that \<open>flag.String\<close> returned.\<close>

definition flag_value :: "flag_set \<Rightarrow> string \<Rightarrow> go_string" where
  "flag_value fs name = (case fs name of Some v \<Rightarrow> v | None \<Rightarrow> [])"

subsection \<open>Parsing the arguments\<close>

text \<open>
  The part of an argument after its dashes is split at the first \<open>=\<close> that is not
  its first character (\<open>for i := 1; i < len(name); i++\<close>).
\<close>

definition split_flag_arg :: "go_string \<Rightarrow> string \<times> go_string option" where
  "split_flag_arg name =
     (case name of
        [] \<Rightarrow> ([], None)
      | c # rest \<Rightarrow>
          (case split_on ''='' rest of
             None \<Rightarrow> (name, None)
           | Some (a, v) \<Rightarrow> (c # a, Some v)))"

fun flag_parse :: "flag_set \<Rightarrow> go_string list \<Rightarrow> flag_outcome" where
  "flag_parse fs [] = Flags_parsed fs []"
| "flag_parse fs (s # args) =
     (if length s < 2 \<or> s ! 0 \<noteq> CHR ''-'' then Flags_parsed fs (s # args)
      else if s = ''--'' then Flags_parsed fs args
      else
        (let name = drop (if s ! 1 = CHR ''-'' then 2 else 1) s in
         if name = [] \<or> hd name = CHR ''-'' \<or> hd name = CHR ''=''
         then Flags_failed (''bad flag syntax: '' @ s)
         else
           (case split_flag_arg name of
              (nm, v) \<Rightarrow>
                if fs nm = None then
                  (if nm = ''help'' \<or> nm = ''h'' then Flags_help
                   else Flags_failed (''flag provided but not defined: -'' @ nm))
                else
                  (case v of
                     Some val \<Rightarrow> flag_parse (fs(nm \<mapsto> val)) args
                   | None \<Rightarrow>
                       (case args of
                          [] \<Rightarrow> Flags_failed (''flag needs an argument: -'' @ nm)
                        | a # rest \<Rightarrow> flag_parse (fs(nm \<mapsto> a)) rest)))))"

subsection \<open>Encoding flag settings as arguments\<close>

text \<open>
  A name \<open>flag.Var\<close> accepts: non-empty, not starting with \<open>-\<close>, holding no \<open>=\<close>.
  \<open>flag_args\<close> writes a list of settings as \<open>-name=value\<close> arguments.
\<close>

definition flag_name_ok :: "string \<Rightarrow> bool" where
  "flag_name_ok k \<longleftrightarrow> k \<noteq> [] \<and> hd k \<noteq> CHR ''-'' \<and> CHR ''='' \<notin> set k"

definition flag_args :: "(string \<times> go_string) list \<Rightarrow> go_string list" where
  "flag_args kvs = map (\<lambda>(k, v). ''-'' @ k @ ''='' @ v) kvs"

definition set_flags :: "flag_set \<Rightarrow> (string \<times> go_string) list \<Rightarrow> flag_set" where
  "set_flags fs kvs = fold (\<lambda>(k, v) m. m(k \<mapsto> v)) kvs fs"

subsection \<open>Parsing one argument\<close>

lemma split_on_eq_absent:
  "CHR ''='' \<notin> set k \<Longrightarrow> split_on ''='' (k @ CHR ''='' # v) = Some (k, v)"
  using split_on_append_first [of "''=''" k v] by simp

lemma split_on_eq_None:
  "CHR ''='' \<notin> set k \<Longrightarrow> split_on ''='' k = None"
  by (simp add: split_on_None)

lemma split_flag_arg_eq:
  "CHR ''='' \<notin> set k \<Longrightarrow> split_flag_arg (c # k @ CHR ''='' # v) = (c # k, Some v)"
  by (simp add: split_flag_arg_def split_on_eq_absent)

lemma split_flag_arg_plain:
  "CHR ''='' \<notin> set k \<Longrightarrow> split_flag_arg (c # k) = (c # k, None)"
  by (simp add: split_flag_arg_def split_on_eq_None)

lemma flag_name_ok_Cons:
  "flag_name_ok k \<Longrightarrow> \<exists>c k'. k = c # k' \<and> c \<noteq> CHR ''-'' \<and> c \<noteq> CHR ''='' \<and> CHR ''='' \<notin> set k'"
  by (cases k) (auto simp: flag_name_ok_def)

lemma flag_parse_assign:
  assumes "flag_name_ok k" and "fs k \<noteq> None"
  shows "flag_parse fs ((''-'' @ k @ ''='' @ v) # args) = flag_parse (fs(k \<mapsto> v)) args"
  using flag_name_ok_Cons [OF assms(1)] assms(2) by (auto simp: split_flag_arg_eq Let_def)

lemma flag_parse_separate:
  assumes "flag_name_ok k" and "fs k \<noteq> None"
  shows "flag_parse fs ((''-'' @ k) # v # args) = flag_parse (fs(k \<mapsto> v)) args"
  using flag_name_ok_Cons [OF assms(1)] assms(2) by (auto simp: split_flag_arg_plain Let_def)

lemma flag_parse_undefined:
  assumes "flag_name_ok k" and "fs k = None" and "k \<noteq> ''help''" and "k \<noteq> ''h''"
  shows "flag_parse fs ((''-'' @ k @ ''='' @ v) # args) =
    Flags_failed (''flag provided but not defined: -'' @ k)"
  using flag_name_ok_Cons [OF assms(1)] assms(2-4) by (auto simp: split_flag_arg_eq Let_def)

lemma flag_parse_help:
  assumes "fs ''h'' = None" and "fs ''help'' = None"
  shows "flag_parse fs (''-h'' # args) = Flags_help"
    and "flag_parse fs (''-help'' # args) = Flags_help"
    and "flag_parse fs (''--help'' # args) = Flags_help"
  using assms by (simp_all add: split_flag_arg_def)

text \<open>A run of \<open>-name=value\<close> arguments sets the flags one after the other.\<close>

lemma flag_parse_flag_args:
  "\<forall>(k, v) \<in> set kvs. flag_name_ok k \<and> fs k \<noteq> None \<Longrightarrow>
   flag_parse fs (flag_args kvs @ more) = flag_parse (set_flags fs kvs) more"
proof (induction kvs arbitrary: fs)
  case Nil
  then show ?case by (simp add: flag_args_def set_flags_def)
next
  case (Cons kv kvs)
  obtain k v where kv: "kv = (k, v)" by fastforce
  with Cons.prems have ok: "flag_name_ok k" "fs k \<noteq> None" by auto
  from Cons.prems kv have "\<forall>(k', v') \<in> set kvs. flag_name_ok k' \<and> (fs(k \<mapsto> v)) k' \<noteq> None"
    by auto
  then have "flag_parse (fs(k \<mapsto> v)) (flag_args kvs @ more) = flag_parse (set_flags (fs(k \<mapsto> v)) kvs) more"
    by (rule Cons.IH)
  with flag_parse_assign [where k = k and fs = fs, OF ok] kv show ?case
    by (simp add: flag_args_def set_flags_def)
qed

text \<open>A defined flag as the last argument, with no value.\<close>

lemma flag_parse_missing_value:
  assumes "flag_name_ok k" and "fs k \<noteq> None"
  shows "flag_parse fs [''-'' @ k] = Flags_failed (''flag needs an argument: -'' @ k)"
  using flag_name_ok_Cons [OF assms(1)] assms(2) by (auto simp: split_flag_arg_plain Let_def)

text \<open>Setting flags keeps every defined flag defined.\<close>

lemma set_flags_defined: "fs k \<noteq> None \<Longrightarrow> set_flags fs kvs k \<noteq> None"
proof (induction kvs arbitrary: fs)
  case Nil
  then show ?case by (simp add: set_flags_def)
next
  case (Cons kv kvs)
  obtain k' v' where "kv = (k', v')" by fastforce
  with Cons show ?case by (simp add: set_flags_def)
qed

text \<open>Malformed flags: a dash followed by \<open>=\<close>, or a third dash.\<close>

lemma flag_parse_bad_syntax:
  "flag_parse fs ((''-='' @ r) # args) = Flags_failed (''bad flag syntax: '' @ ''-='' @ r)"
  "flag_parse fs ((''---'' @ r) # args) = Flags_failed (''bad flag syntax: '' @ ''---'' @ r)"
  "flag_parse fs ((''--='' @ r) # args) = Flags_failed (''bad flag syntax: '' @ ''--='' @ r)"
  by simp_all

text \<open>Parsing stops at the first argument that is not a flag.\<close>

lemma flag_parse_positional:
  "p \<noteq> [] \<Longrightarrow> hd p \<noteq> CHR ''-'' \<Longrightarrow> flag_parse fs (p # rest) = Flags_parsed fs (p # rest)"
  by (cases p) simp_all

subsection \<open>Properties of flag parsing\<close>

text \<open>
  C10. Writing any list of settings of defined, well-named flags as \<open>-name=value\<close>
  arguments and parsing them gives back exactly those values, the last setting of
  a flag winning, and leaves no argument over.
\<close>

theorem flag_parse_roundtrip:
  "\<forall>(k, v) \<in> set kvs. flag_name_ok k \<and> fs k \<noteq> None \<Longrightarrow>
   flag_parse fs (flag_args kvs) = Flags_parsed (set_flags fs kvs) []"
  using flag_parse_flag_args [of kvs fs "[]"] by simp

theorem flag_parse_roundtrip_witness:
  "flag_name_ok ''name'' \<and> flag_name_ok ''url'' \<and>
   ([''name'' \<mapsto> [], ''url'' \<mapsto> []] :: flag_set) ''name'' \<noteq> None \<and>
   ([''name'' \<mapsto> [], ''url'' \<mapsto> []] :: flag_set) ''url'' \<noteq> None \<and>
   flag_parse [''name'' \<mapsto> [], ''url'' \<mapsto> []] [''-name=a'', ''-url=b'', ''-name=c'']
     = Flags_parsed [''name'' \<mapsto> ''c'', ''url'' \<mapsto> ''b''] []"
proof -
  let ?kvs = "[(''name'', ''a''), (''url'', ''b''), (''name'', ''c'')]"
  let ?fs = "[''name'' \<mapsto> [], ''url'' \<mapsto> []] :: flag_set"
  have h: "\<forall>(k, v) \<in> set ?kvs. flag_name_ok k \<and> ?fs k \<noteq> None"
    by (simp add: flag_name_ok_def)
  have e1: "flag_args ?kvs = [''-name=a'', ''-url=b'', ''-name=c'']"
    by (simp add: flag_args_def)
  have e2: "set_flags ?fs ?kvs = [''name'' \<mapsto> ''c'', ''url'' \<mapsto> ''b'']"
    by (simp add: set_flags_def fun_upd_twist)
  have "flag_parse ?fs (flag_args ?kvs) = Flags_parsed (set_flags ?fs ?kvs) []"
    by (rule flag_parse_roundtrip [OF h])
  then have "flag_parse ?fs [''-name=a'', ''-url=b'', ''-name=c'']
      = Flags_parsed [''name'' \<mapsto> ''c'', ''url'' \<mapsto> ''b''] []"
    by (simp only: e1 e2)
  moreover have "flag_name_ok ''name'' \<and> flag_name_ok ''url''"
    by (simp add: flag_name_ok_def)
  ultimately show ?thesis by simp
qed

text \<open>
  C11. Parsing never adds or removes a flag (every lookup of a defined flag stays
  defined), and the arguments left over are a suffix of the command line.
\<close>

theorem flag_parse_keeps_flags:
  "flag_parse fs args = Flags_parsed fs' rest \<Longrightarrow> dom fs' = dom fs \<and> suffix rest args"
proof (induction fs args arbitrary: fs' rest rule: flag_parse.induct)
  case (1 fs)
  then show ?case by simp
next
  case (2 fs s args)
  show ?case
  proof (cases "\<not> (length s < 2 \<or> s ! 0 \<noteq> CHR ''-'') \<and> s \<noteq> ''--''")
    case False
    with "2.prems" show ?thesis by (auto simp: suffix_ConsI split: if_splits)
  next
    case True
    define name where "name = drop (if s ! 1 = CHR ''-'' then 2 else 1) s"
    obtain nm v where sp: "(nm, v) = split_flag_arg name" by (metis surj_pair)
    have run: "flag_parse fs (s # args) =
      (if name = [] \<or> hd name = CHR ''-'' \<or> hd name = CHR ''=''
       then Flags_failed (''bad flag syntax: '' @ s)
       else if fs nm = None then
         (if nm = ''help'' \<or> nm = ''h'' then Flags_help
          else Flags_failed (''flag provided but not defined: -'' @ nm))
       else (case v of
               Some val \<Rightarrow> flag_parse (fs(nm \<mapsto> val)) args
             | None \<Rightarrow> (case args of
                  [] \<Rightarrow> Flags_failed (''flag needs an argument: -'' @ nm)
                | a # rest \<Rightarrow> flag_parse (fs(nm \<mapsto> a)) rest)))"
    proof -
      from True have c1: "(length s < 2 \<or> s ! 0 \<noteq> CHR ''-'') = False"
        and c2: "(s = ''--'') = False" by auto
      show ?thesis
        by (simp only: flag_parse.simps(2) c1 c2 if_False Let_def name_def [symmetric]
            sp [symmetric] prod.case)
    qed
    from "2.prems" run have ok: "\<not> (name = [] \<or> hd name = CHR ''-'' \<or> hd name = CHR ''='')"
        and def: "fs nm \<noteq> None"
      by (auto split: if_splits)
    then have dom_upd: "dom (fs(nm \<mapsto> x)) = dom fs" for x by auto
    show ?thesis
    proof (cases v)
      case (Some val)
      with "2.prems" run ok def have "flag_parse (fs(nm \<mapsto> val)) args = Flags_parsed fs' rest"
        by simp
      moreover from True have "\<not> (length s < 2 \<or> s ! 0 \<noteq> CHR ''-'')" and "s \<noteq> ''--''"
        by auto
      ultimately have "dom fs' = dom (fs(nm \<mapsto> val)) \<and> suffix rest args"
        using "2.IH"(2) [OF _ _ name_def ok sp def Some] by blast
      then show ?thesis by (simp only: dom_upd) (simp add: suffix_ConsI)
    next
      case None
      with "2.prems" run ok def obtain a args' where args: "args = a # args'"
          and "flag_parse (fs(nm \<mapsto> a)) args' = Flags_parsed fs' rest"
        by (auto split: list.splits)
      moreover from True have "\<not> (length s < 2 \<or> s ! 0 \<noteq> CHR ''-'')" and "s \<noteq> ''--''"
        by auto
      ultimately have "dom fs' = dom (fs(nm \<mapsto> a)) \<and> suffix rest args'"
        using "2.IH"(1) [OF _ _ name_def ok sp def None args] by blast
      then show ?thesis using args by (simp only: dom_upd) (simp add: suffix_ConsI)
    qed
  qed
qed

theorem flag_parse_keeps_flags_witness:
  "flag_parse [''name'' \<mapsto> []] [''-name=x'', ''pos''] = Flags_parsed [''name'' \<mapsto> ''x''] [''pos''] \<and>
   dom [''name'' \<mapsto> ''x''] = dom [''name'' \<mapsto> ([] :: go_string)] \<and> suffix [''pos''] [''-name=x'', ''pos'']"
proof -
  have h: "flag_parse [''name'' \<mapsto> []] [''-name=x'', ''pos''] = Flags_parsed [''name'' \<mapsto> ''x''] [''pos'']"
    by (simp add: split_flag_arg_def)
  show ?thesis using h flag_parse_keeps_flags [OF h] by simp
qed

text \<open>
  C13. The spellings \<open>-f v\<close>, \<open>-f=v\<close> and \<open>--f=v\<close> of a defined flag set it
  alike, whatever the value, even one that starts with a dash.
\<close>

theorem flag_spellings_agree:
  assumes "flag_name_ok k" and "fs k \<noteq> None"
  shows "flag_parse fs ((''-'' @ k) # v # args) = flag_parse fs ((''-'' @ k @ ''='' @ v) # args) \<and>
         flag_parse fs ((''--'' @ k @ ''='' @ v) # args) = flag_parse fs ((''-'' @ k @ ''='' @ v) # args)"
proof -
  have double: "flag_parse fs ((''--'' @ k @ ''='' @ v) # args) = flag_parse (fs(k \<mapsto> v)) args"
    using flag_name_ok_Cons [OF assms(1)] assms(2) by (auto simp: split_flag_arg_eq Let_def)
  show ?thesis
    using flag_parse_separate [where k = k and fs = fs, OF assms]
      flag_parse_assign [where k = k and fs = fs, OF assms] double by simp
qed

theorem flag_spellings_agree_witness:
  "flag_name_ok ''url'' \<and> [''url'' \<mapsto> ''www.example.com''] ''url'' \<noteq> None \<and>
   flag_parse [''url'' \<mapsto> ''www.example.com''] [''-url'', ''-x''] =
     flag_parse [''url'' \<mapsto> ''www.example.com''] [''-url=-x''] \<and>
   flag_parse [''url'' \<mapsto> ''www.example.com''] [''--url=-x''] =
     flag_parse [''url'' \<mapsto> ''www.example.com''] [''-url=-x'']"
proof -
  have h1: "flag_name_ok ''url''" by (simp add: flag_name_ok_def)
  have h2: "[''url'' \<mapsto> ''www.example.com''] ''url'' \<noteq> None" by simp
  show ?thesis
    using h1 h2 flag_spellings_agree [where k = "''url''" and fs = "[''url'' \<mapsto> ''www.example.com'']"
        and v = "''-x''" and args = "[]", OF h1 h2]
    by simp
qed

end
