(* ===== verification/Spider.thy ===== *)
theory Spider
  imports Prelude
begin

text \<open>
  The parameter model: the Go struct \<open>Spider\<close> of src/tools/cli/swissknife.go
  (lines 42--46), three exported string fields, and the field lookup that the
  template engine performs on it by reflection when it evaluates \<open>{{ .Field }}\<close>.
\<close>

record spider =
  Name :: go_string
  Doc :: go_string
  URL :: go_string

text \<open>
  \<open>text/template\<close> evaluates a field chain \<open>.F\<close> on a \<open>*Spider\<close> by indirecting the
  pointer and looking the exported field \<open>F\<close> up by its exact (case-sensitive) name;
  a name that is not a field is an execution error (\<open>None\<close> here).
\<close>

definition spider_field :: "spider \<Rightarrow> string \<Rightarrow> go_string option" where
  "spider_field sp f =
     (if f = ''Name'' then Some (Name sp)
      else if f = ''Doc'' then Some (Doc sp)
      else if f = ''URL'' then Some (URL sp)
      else None)"

definition spider_fields :: "string list" where
  "spider_fields = [''Name'', ''Doc'', ''URL'']"

lemma spider_field_defined [simp]:
  "spider_field sp f \<noteq> None \<longleftrightarrow> f \<in> set spider_fields"
  by (simp add: spider_field_def spider_fields_def)

lemma spider_field_simps [simp]:
  "spider_field sp ''Name'' = Some (Name sp)"
  "spider_field sp ''Doc'' = Some (Doc sp)"
  "spider_field sp ''URL'' = Some (URL sp)"
  by (simp_all add: spider_field_def)

end
