(* ===== verification/Html_Escape.thy ===== *)
theory Html_Escape
  imports Prelude
begin

text \<open>
  The escaping that \<open>html/template\<close> (imported at line 15 of
  src/tools/cli/swissknife.go) applies to every \<open>{{ .Field }}\<close> action of the
  template. The template contains no \<open><\<close>, so every action is in the HTML text
  context, where the escaper is \<open>htmlEscaper\<close>, i.e. \<open>htmlReplacer\<close> with
  \<open>htmlReplacementTable\<close> and \<open>badRunes = true\<close>: it replaces NUL, \<open>"\<close>, \<open>&\<close>,
  \<open>'\<close>, \<open>+\<close>, \<open><\<close> and \<open>>\<close> and copies every other rune. The Go loop decodes
  UTF-8 runes, but only runes below 63 are looked up, every byte of a multi-byte
  or invalid sequence is at least 0x80, and an ASCII byte always decodes as a
  rune of its own; so replacing byte by byte, as below, gives the same bytes
  (proved in \<open>Html_Replacer\<close> against a model of the Go loop).
  The library code is not part of the repository: it is modelled from the Go
  standard library's documented behaviour.
\<close>

subsection \<open>The replacement table and the escaper\<close>

definition fffd_utf8 :: go_string where
  \<comment> \<open>U+FFFD REPLACEMENT CHARACTER, encoded in UTF-8\<close>
  "fffd_utf8 = [CHR 0xEF, CHR 0xBF, CHR 0xBD]"

definition html_replacement_table :: "(char \<times> go_string) list" where
  "html_replacement_table =
     [(nul, fffd_utf8), (dquote, ''&#34;''), (CHR ''&'', ''&amp;''), (squote, ''&#39;''),
      (CHR ''+'', ''&#43;''), (CHR ''<'', ''&lt;''), (CHR ''>'', ''&gt;'')]"

definition html_escape_char :: "char \<Rightarrow> go_string" where
  "html_escape_char c = (case map_of html_replacement_table c of Some r \<Rightarrow> r | None \<Rightarrow> [c])"

definition html_escape :: "go_string \<Rightarrow> go_string" where
  "html_escape s = concat (map html_escape_char s)"

definition html_special :: "char set" where
  "html_special = fst ` set html_replacement_table"

text \<open>
  An HTML reader's decoding of the six character references the escaper emits;
  not part of the program, it states what the escaping preserves.
\<close>

fun html_unescape :: "go_string \<Rightarrow> go_string" where
  "html_unescape [] = []"
| "html_unescape (c # s) =
     (if c = CHR ''&'' then
        (if prefix ''#34;'' s then dquote # html_unescape (drop 4 s)
         else if prefix ''amp;'' s then CHR ''&'' # html_unescape (drop 4 s)
         else if prefix ''#39;'' s then squote # html_unescape (drop 4 s)
         else if prefix ''#43;'' s then CHR ''+'' # html_unescape (drop 4 s)
         else if prefix ''lt;'' s then CHR ''<'' # html_unescape (drop 3 s)
         else if prefix ''gt;'' s then CHR ''>'' # html_unescape (drop 3 s)
         else CHR ''&'' # html_unescape s)
      else c # html_unescape s)"

text \<open>Characters the escaper never emits: every replacement avoids them.\<close>

definition html_unsafe :: "char set" where
  "html_unsafe = {nul, dquote, squote, CHR ''+'', CHR ''<'', CHR ''>''}"

subsection \<open>Structure of the escaper\<close>

lemma html_special_iff:
  "c \<in> html_special \<longleftrightarrow> c \<in> {nul, dquote, CHR ''&'', squote, CHR ''+'', CHR ''<'', CHR ''>''}"
  by (auto simp: html_special_def html_replacement_table_def)

lemma html_escape_char_plain [simp]:
  "c \<notin> html_special \<Longrightarrow> html_escape_char c = [c]"
  by (simp add: html_escape_char_def html_special_def map_of_eq_None_iff [symmetric])

lemma html_escape_char_special:
  "c \<in> html_special \<Longrightarrow> 2 \<le> length (html_escape_char c)"
  by (auto simp: html_special_iff html_escape_char_def html_replacement_table_def
      fffd_utf8_def nul_def dquote_def squote_def)

lemma html_escape_char_nonempty: "1 \<le> length (html_escape_char c)"
  by (cases "c \<in> html_special") (auto dest: html_escape_char_special)

lemma html_escape_Nil [simp]: "html_escape [] = []"
  by (simp add: html_escape_def)

lemma html_escape_Cons [simp]: "html_escape (c # s) = html_escape_char c @ html_escape s"
  by (simp add: html_escape_def)

lemma html_escape_append [simp]: "html_escape (s @ t) = html_escape s @ html_escape t"
  by (simp add: html_escape_def)

lemma length_html_escape_ge: "length s \<le> length (html_escape s)"
proof (induction s)
  case Nil
  then show ?case by simp
next
  case (Cons c s)
  then show ?case using html_escape_char_nonempty [of c] by simp
qed

lemma length_html_escape_special:
  "c \<in> set s \<Longrightarrow> c \<in> html_special \<Longrightarrow> length s < length (html_escape s)"
proof (induction s)
  case Nil
  then show ?case by simp
next
  case (Cons d s)
  show ?case
  proof (cases "c = d")
    case True
    with Cons.prems have "2 \<le> length (html_escape_char d)"
      by (simp add: html_escape_char_special)
    with length_html_escape_ge [of s] show ?thesis by simp
  next
    case False
    with Cons have "length s < length (html_escape s)" by simp
    with html_escape_char_nonempty [of d] show ?thesis by simp
  qed
qed

text \<open>No replacement is longer than five bytes.\<close>

lemma html_escape_char_le5: "length (html_escape_char c) \<le> 5"
  by (cases "c \<in> html_special")
    (auto simp: html_special_iff html_escape_char_def html_replacement_table_def fffd_utf8_def
      nul_def dquote_def squote_def)

lemma length_html_escape_le: "length (html_escape s) \<le> 5 * length s"
  by (induction s) (simp_all add: add_mono html_escape_char_le5)

lemma html_escape_plain:
  "set s \<inter> html_special = {} \<Longrightarrow> html_escape s = s"
  by (induction s) auto

lemma html_escape_char_safe: "set (html_escape_char c) \<inter> html_unsafe = {}"
proof (cases "c \<in> html_special")
  case True
  then show ?thesis
    by (auto simp: html_special_iff html_escape_char_def html_replacement_table_def
        html_unsafe_def fffd_utf8_def nul_def dquote_def squote_def)
next
  case False
  then show ?thesis by (auto simp: html_special_iff html_unsafe_def)
qed

lemma html_escape_safe: "set (html_escape s) \<inter> html_unsafe = {}"
  by (induction s) (use html_escape_char_safe in auto)

lemma html_escape_no_quotes [simp]:
  "dquote \<notin> set (html_escape s)" "squote \<notin> set (html_escape s)"
  using html_escape_safe [of s] by (auto simp: html_unsafe_def)

subsection \<open>Decoding what the escaper wrote\<close>

lemma html_unescape_escape_char:
  "c \<noteq> nul \<Longrightarrow> html_unescape (html_escape_char c @ t) = c # html_unescape t"
proof (cases "c \<in> html_special")
  case True
  moreover assume "c \<noteq> nul"
  ultimately show ?thesis
    by (auto simp: html_special_iff html_escape_char_def html_replacement_table_def
        dquote_def squote_def)
next
  case False
  then have "c \<noteq> CHR ''&''" by (simp add: html_special_iff)
  with False show ?thesis by simp
qed

lemma html_escape_no_markup [simp]:
  "nul \<notin> set (html_escape s)" "CHR ''<'' \<notin> set (html_escape s)"
  "CHR ''>'' \<notin> set (html_escape s)" "CHR ''+'' \<notin> set (html_escape s)"
  using html_escape_safe [of s] by (auto simp: html_unsafe_def)

text \<open>Decoding text that holds no \<open>&\<close>, and an escaped value followed by more.\<close>

lemma html_unescape_plain:
  "CHR ''&'' \<notin> set t \<Longrightarrow> html_unescape (t @ r) = t @ html_unescape r"
  by (induction t) auto

lemma html_unescape_escape_append:
  "nul \<notin> set v \<Longrightarrow> html_unescape (html_escape v @ r) = v @ html_unescape r"
  by (induction v) (auto simp: html_unescape_escape_char)

subsection \<open>Template delimiters pass through the escaper\<close>

lemma html_escape_char_brace:
  "x \<noteq> lbrace \<Longrightarrow> lbrace \<notin> set (html_escape_char x)"
  "html_escape_char lbrace = [lbrace]"
proof -
  show "x \<noteq> lbrace \<Longrightarrow> lbrace \<notin> set (html_escape_char x)"
    by (cases "x \<in> html_special")
      (auto simp: html_special_iff html_escape_char_def html_replacement_table_def fffd_utf8_def
        lbrace_def nul_def dquote_def squote_def)
  show "html_escape_char lbrace = [lbrace]"
    by (simp add: html_special_iff lbrace_def nul_def dquote_def squote_def)
qed

lemma prefix_brace_html_escape: "prefix [lbrace] (html_escape v) \<longleftrightarrow> prefix [lbrace] v"
proof (cases v)
  case Nil
  then show ?thesis by simp
next
  case (Cons y v')
  show ?thesis
  proof (cases "y = lbrace")
    case True
    with Cons show ?thesis by (simp add: html_escape_char_brace)
  next
    case False
    then have "lbrace \<notin> set (html_escape_char y)" by (rule html_escape_char_brace)
    moreover have "html_escape_char y \<noteq> []"
      using html_escape_char_nonempty [of y] by auto
    ultimately have "\<not> prefix [lbrace] (html_escape_char y @ html_escape v')"
      by (cases "html_escape_char y") auto
    with Cons False show ?thesis by simp
  qed
qed

lemma html_escape_brace_pair:
  "sublist [lbrace, lbrace] (html_escape v) \<longleftrightarrow> sublist [lbrace, lbrace] v"
proof (induction v)
  case Nil
  then show ?case by simp
next
  case (Cons x v)
  show ?case
  proof (cases "x = lbrace")
    case True
    then show ?thesis
      using Cons.IH prefix_brace_html_escape [of v]
      by (simp add: html_escape_char_brace sublist_Cons_right)
  next
    case False
    have sep: "sublist [lbrace, lbrace] ([] @ html_escape_char x @ html_escape v) \<longleftrightarrow>
        sublist [lbrace, lbrace] [] \<or> sublist [lbrace, lbrace] (html_escape v)"
      by (rule sublist_pair_sep) (use False html_escape_char_brace html_escape_char_nonempty [of x] in auto)
    from False have "sublist [lbrace, lbrace] (x # v) \<longleftrightarrow> sublist [lbrace, lbrace] v"
      by (simp add: sublist_Cons_right)
    with sep Cons.IH show ?thesis by simp
  qed
qed
subsection \<open>Properties of the escaping\<close>

text \<open>
  C5. The spec says field values are embedded verbatim, with no escaping. The
  escaper leaves a value unchanged exactly when it holds none of the seven
  characters NUL, \<open>"\<close>, \<open>&\<close>, \<open>'\<close>, \<open>+\<close>, \<open><\<close> and \<open>>\<close>; any other value
  is rewritten (and gets longer).
\<close>

theorem html_escape_identity_iff:
  "html_escape s = s \<longleftrightarrow>
   set s \<inter> {nul, dquote, CHR ''&'', squote, CHR ''+'', CHR ''<'', CHR ''>''} = {}"
proof -
  have sp: "set s \<inter> html_special = set s \<inter> {nul, dquote, CHR ''&'', squote, CHR ''+'', CHR ''<'', CHR ''>''}"
    by (auto simp only: html_special_iff)
  have "html_escape s = s \<longleftrightarrow> set s \<inter> html_special = {}"
  proof
    assume eq: "html_escape s = s"
    show "set s \<inter> html_special = {}"
    proof (rule ccontr)
      assume "set s \<inter> html_special \<noteq> {}"
      then obtain c where "c \<in> set s" and "c \<in> html_special" by blast
      then have "length s < length (html_escape s)" by (rule length_html_escape_special)
      with eq show False by simp
    qed
  next
    assume "set s \<inter> html_special = {}"
    then show "html_escape s = s" by (rule html_escape_plain)
  qed
  then show ?thesis by (simp only: sp)
qed

text \<open>
  C6. Escaping loses no information on values without NUL: an HTML reader decoding
  the character references recovers the value exactly.
\<close>

theorem html_escape_roundtrip:
  "nul \<notin> set s \<Longrightarrow> html_unescape (html_escape s) = s"
proof (induction s)
  case Nil
  then show ?case by simp
next
  case (Cons c s)
  then have "c \<noteq> nul" and "nul \<notin> set s" by auto
  then show ?case by (simp add: html_unescape_escape_char Cons.IH)
qed

theorem html_escape_roundtrip_witness:
  "nul \<notin> set ''a&b<c>'' \<and> html_unescape (html_escape ''a&b<c>'') = ''a&b<c>''"
proof -
  have h: "nul \<notin> set ''a&b<c>''" by (simp add: nul_def)
  show ?thesis using h html_escape_roundtrip [OF h] by simp
qed

end
