(* ===== verification/Go_Template.thy ===== *)
theory Go_Template
  imports Prelude Spider Html_Escape
begin

text \<open>
  The template renderer: the fixed template \<open>spiderTemplate\<close> (lines 19--38 of
  src/tools/cli/swissknife.go), its parse by \<open>template.New("spider").Parse\<close>
  (line 71) and its execution on a \<open>*Spider\<close> by \<open>t.Execute(os.Stdout, spider)\<close>
  (line 76). The engine (Go's \<open>text/template\<close> lexer and parser, with the escaping
  pass of \<open>html/template\<close>) is library code; it is modelled for the fragment the
  program uses: literal text and actions \<open>{{ .Field }}\<close> naming one field. An
  action that is a bare identifier is a function call in Go; with the empty
  \<open>FuncMap\<close> of line 70 the parser rejects every name that is neither a keyword
  nor a builtin function (\<open>Undefined_function\<close>, Go's "function not defined").
  Any other action (pipelines, builtins, control structures, comments, trim
  markers) lies outside the modelled fragment and is reported as
  \<open>Unsupported_action\<close>, where Go would accept some of them.
\<close>

subsection \<open>Parsed templates\<close>

datatype piece =
    Text go_string        \<comment> \<open>a \<open>parse.TextNode\<close>: copied to the output\<close>
  | Field string          \<comment> \<open>an \<open>ActionNode\<close> holding one \<open>FieldNode\<close> \<open>.F\<close>\<close>

datatype tmpl_error =
    Unclosed_action                 \<comment> \<open>\<open>{{\<close> with no closing \<open>}}\<close>\<close>
  | Undefined_function string      \<comment> \<open>\<open>function "g" not defined\<close>: \<open>g\<close> is in no function map\<close>
  | Unsupported_action go_string    \<comment> \<open>an action outside the modelled fragment\<close>

datatype exec_error =
    No_field string   \<comment> \<open>"can't evaluate field F in type *main.Spider"\<close>

subsection \<open>Lexing an action\<close>

definition go_space :: "char \<Rightarrow> bool" where
  \<comment> \<open>\<open>isSpace\<close> of the template lexer: space, tab, carriage return, newline\<close>
  "go_space c \<longleftrightarrow> c = CHR '' '' \<or> c = CHR 0x09 \<or> c = CHR 0x0D \<or> c = CHR 0x0A"

definition strip_spaces :: "go_string \<Rightarrow> go_string" where
  "strip_spaces s = rev (dropWhile go_space (rev (dropWhile go_space s)))"

definition ident_start :: "char \<Rightarrow> bool" where
  "ident_start c \<longleftrightarrow>
     (let n = of_char c :: nat in n = 95 \<or> (65 \<le> n \<and> n \<le> 90) \<or> (97 \<le> n \<and> n \<le> 122))"

definition ident_char :: "char \<Rightarrow> bool" where
  "ident_char c \<longleftrightarrow> ident_start c \<or> (let n = of_char c :: nat in 48 \<le> n \<and> n \<le> 57)"

definition field_name :: "string \<Rightarrow> bool" where
  "field_name f \<longleftrightarrow> f \<noteq> [] \<and> ident_start (hd f) \<and> list_all ident_char f"

text \<open>
  The identifiers the lexer turns into keywords (\<open>key\<close> and the constants
  \<open>true\<close>, \<open>false\<close>, \<open>nil\<close> of text/template/parse/lex.go) and the builtin
  functions of text/template/funcs.go, which every template may call.
\<close>

definition go_template_keywords :: "string list" where
  "go_template_keywords =
     [''block'', ''break'', ''continue'', ''define'', ''else'', ''end'', ''if'', ''range'',
      ''nil'', ''template'', ''with'', ''true'', ''false'']"

definition go_builtin_funcs :: "string list" where
  "go_builtin_funcs =
     [''and'', ''call'', ''html'', ''index'', ''slice'', ''js'', ''len'', ''not'', ''or'',
      ''print'', ''printf'', ''println'', ''urlquery'', ''eq'', ''ge'', ''gt'', ''le'', ''lt'', ''ne'']"

text \<open>The names of the function map the program installs with \<open>Funcs(fmap)\<close> (line 70).\<close>

definition fmap :: "string list" where
  "fmap = []"

text \<open>
  The inside of \<open>{{ ... }}\<close>, between optional spaces: a field reference \<open>.F\<close>,
  a bare identifier (a call of the function of that name), or anything else.
\<close>

datatype action =
    Act_field string
  | Act_function string
  | Act_other

definition parse_action :: "go_string \<Rightarrow> action" where
  "parse_action inner =
     (case strip_spaces inner of
        c # f \<Rightarrow>
          (if c = CHR ''.'' \<and> field_name f then Act_field f
           else if field_name (c # f) \<and> c # f \<notin> set go_template_keywords then Act_function (c # f)
           else Act_other)
      | [] \<Rightarrow> Act_other)"

subsection \<open>Parsing a template\<close>

definition text_piece :: "go_string \<Rightarrow> piece list" where
  "text_piece t = (if t = [] then [] else [Text t])"

function parse_template :: "go_string \<Rightarrow> tmpl_error + piece list" where
  "parse_template s =
     (case split_on ''{{'' s of
        None \<Rightarrow> Inr (text_piece s)
      | Some (before, rest) \<Rightarrow>
          (case split_on ''}}'' rest of
             None \<Rightarrow> Inl Unclosed_action
           | Some (inner, after) \<Rightarrow>
               (case parse_action inner of
                  Act_other \<Rightarrow> Inl (Unsupported_action inner)
                | Act_function g \<Rightarrow>
                    (if g \<in> set go_builtin_funcs \<union> set fmap then Inl (Unsupported_action inner)
                     else Inl (Undefined_function g))
                | Act_field f \<Rightarrow>
                    (case parse_template after of
                       Inl e \<Rightarrow> Inl e
                     | Inr ps \<Rightarrow> Inr (text_piece before @ Field f # ps)))))"
  by pat_completeness auto
termination
  by (relation "measure length") (auto dest!: split_on_length)

declare parse_template.simps [simp del]

subsection \<open>Executing a parsed template\<close>

text \<open>
  Execution writes each text node as it is and each field's value through the
  HTML escaper, in order; at the first error it stops, and what was written so
  far stays written (Go executes straight into \<open>os.Stdout\<close>).
\<close>

fun execute :: "piece list \<Rightarrow> spider \<Rightarrow> go_string \<times> exec_error option" where
  "execute [] sp = ([], None)"
| "execute (Text t # ps) sp = apfst ((@) t) (execute ps sp)"
| "execute (Field f # ps) sp =
     (case spider_field sp f of
        None \<Rightarrow> ([], Some (No_field f))
      | Some v \<Rightarrow> apfst ((@) (html_escape v)) (execute ps sp))"

subsection \<open>The fixed template\<close>

definition triple_quote :: go_string where
  "triple_quote = [dquote, dquote, dquote]"

definition spiderTemplate :: go_string where
  "spiderTemplate =
     ''\<newline># -*- coding: utf-8 -*-\<newline>\<newline>'' @ triple_quote @ ''{{ .Name }}.\<newline>\<newline>{{ .Doc }}\<newline>\<newline>''
     @ triple_quote @ ''\<newline>\<newline>import scrapy\<newline>\<newline>\<newline>class {{ .Name }}Spider(scrapy.Spider):\<newline>\<newline>''
     @ ''    name = '' @ [squote] @ ''{{ .Name }}'' @ [squote] @ ''\<newline>''
     @ ''    start_urls = [ {{ .URL }} ]\<newline>\<newline>''
     @ ''    def parse(self, response):\<newline>        print(response.body)\<newline>''"

text \<open>The parse of the fixed template: five actions between six text nodes.\<close>

definition spider_pieces :: "piece list" where
  "spider_pieces =
     [Text (''\<newline># -*- coding: utf-8 -*-\<newline>\<newline>'' @ triple_quote), Field ''Name'',
      Text ''.\<newline>\<newline>'', Field ''Doc'',
      Text (''\<newline>\<newline>'' @ triple_quote @ ''\<newline>\<newline>import scrapy\<newline>\<newline>\<newline>class ''), Field ''Name'',
      Text (''Spider(scrapy.Spider):\<newline>\<newline>    name = '' @ [squote]), Field ''Name'',
      Text ([squote] @ ''\<newline>    start_urls = [ ''), Field ''URL'',
      Text ('' ]\<newline>\<newline>    def parse(self, response):\<newline>        print(response.body)\<newline>'')]"

text \<open>
  What the spec asks of the renderer, as plain string interpolation: the fixed
  boilerplate with the three values spliced in at the five placeholder positions.
\<close>

definition render_spec :: "go_string \<Rightarrow> go_string \<Rightarrow> go_string \<Rightarrow> go_string" where
  "render_spec n d u =
     ''\<newline># -*- coding: utf-8 -*-\<newline>\<newline>'' @ triple_quote @ n @ ''.\<newline>\<newline>'' @ d @ ''\<newline>\<newline>''
     @ triple_quote @ ''\<newline>\<newline>import scrapy\<newline>\<newline>\<newline>class '' @ n @ ''Spider(scrapy.Spider):\<newline>\<newline>''
     @ ''    name = '' @ [squote] @ n @ [squote] @ ''\<newline>''
     @ ''    start_urls = [ '' @ u @ '' ]\<newline>\<newline>''
     @ ''    def parse(self, response):\<newline>        print(response.body)\<newline>''"

definition template_fields :: "piece list \<Rightarrow> string list" where
  "template_fields ps = [f. Field f \<leftarrow> ps]"

subsection \<open>Printing a parsed template\<close>

text \<open>
  The inverse of the parser: text nodes as they are, field actions in the spacing
  of the fixed template. A piece list is well formed when its texts are non-empty,
  no two are adjacent, and none holds \<open>{{\<close> or ends in \<open>{\<close>.
\<close>

fun print_piece :: "piece \<Rightarrow> go_string" where
  "print_piece (Text t) = t"
| "print_piece (Field f) = ''{{ .'' @ f @ '' }}''"

definition print_template :: "piece list \<Rightarrow> go_string" where
  "print_template ps = concat (map print_piece ps)"

fun wf_pieces :: "piece list \<Rightarrow> bool" where
  "wf_pieces [] = True"
| "wf_pieces (Text t # ps) =
     (t \<noteq> [] \<and> \<not> sublist ''{{'' (t @ ''{'') \<and> (case ps of Text _ # _ \<Rightarrow> False | _ \<Rightarrow> True) \<and> wf_pieces ps)"
| "wf_pieces (Field f # ps) = (field_name f \<and> wf_pieces ps)"

text \<open>
  The shape of every parse: text nodes are non-empty, hold no \<open>{{\<close> and are
  never adjacent; every action names a field with a Go identifier.
\<close>

fun lexed_pieces :: "piece list \<Rightarrow> bool" where
  "lexed_pieces [] = True"
| "lexed_pieces (Text t # ps) =
     (t \<noteq> [] \<and> \<not> sublist ''{{'' t \<and> (case ps of Text _ # _ \<Rightarrow> False | _ \<Rightarrow> True) \<and> lexed_pieces ps)"
| "lexed_pieces (Field f # ps) = (field_name f \<and> lexed_pieces ps)"

subsection \<open>Parsing one action\<close>

lemma ident_char_not_space: "ident_char c \<Longrightarrow> \<not> go_space c"
  by (auto simp: ident_char_def ident_start_def go_space_def Let_def)

lemma ident_char_not_brace: "ident_char c \<Longrightarrow> c \<noteq> CHR ''}''"
  by (auto simp: ident_char_def ident_start_def Let_def)

lemma field_name_chars: "field_name f \<Longrightarrow> c \<in> set f \<Longrightarrow> ident_char c"
  by (auto simp: field_name_def list_all_iff)

lemma parse_action_field: "field_name f \<Longrightarrow> parse_action ('' .'' @ f @ '' '') = Act_field f"
proof -
  assume f: "field_name f"
  then have ne: "f \<noteq> []" by (simp add: field_name_def)
  have "\<not> go_space (last f)"
    using f ne by (intro ident_char_not_space field_name_chars) auto
  then have "dropWhile go_space (rev f @ ''.'') = rev f @ ''.''"
    using ne by (cases "rev f") (auto simp: last_rev [symmetric])
  then have "strip_spaces ('' .'' @ f @ '' '') = ''.'' @ f"
    by (simp add: strip_spaces_def go_space_def)
  with f show ?thesis by (simp add: parse_action_def)
qed

lemma no_close_in_action: "field_name f \<Longrightarrow> \<not> sublist ''}}'' ('' .'' @ f @ '' '' @ butlast ''}}'')"
proof -
  assume f: "field_name f"
  have c: "CHR ''}'' \<notin> set ('' .'' @ f @ '' '')"
    using f by (auto dest: field_name_chars ident_char_not_brace)
  have "\<not> sublist [CHR ''}'', CHR ''}''] (('' .'' @ f @ '' '') @ [CHR ''}''])"
  proof
    assume "sublist [CHR ''}'', CHR ''}''] (('' .'' @ f @ '' '') @ [CHR ''}''])"
    with c show False
      by (auto simp: sublist_append sublist_def suffix_def append_eq_Cons_conv Cons_eq_append_conv
          append_eq_append_conv2)
  qed
  then show ?thesis by simp
qed

lemma no_close_in_field: "field_name f \<Longrightarrow> \<not> sublist ''}}'' (f @ butlast ''}}'')"
proof -
  assume f: "field_name f"
  have c: "CHR ''}'' \<notin> set f"
    using f by (auto dest: field_name_chars ident_char_not_brace)
  show ?thesis
  proof
    assume "sublist ''}}'' (f @ butlast ''}}'')"
    with c show False
      by (auto simp: sublist_append sublist_def suffix_def append_eq_Cons_conv Cons_eq_append_conv
          append_eq_append_conv2)
  qed
qed

lemma parse_action_bare_field:
  "field_name f \<Longrightarrow> f \<notin> set go_template_keywords \<Longrightarrow> parse_action f = Act_function f"
proof -
  assume f: "field_name f" and k: "f \<notin> set go_template_keywords"
  then obtain c f' where cf: "f = c # f'" and "ident_start c" by (cases f) (auto simp: field_name_def)
  then have "\<not> go_space c" and "c \<noteq> CHR ''.''"
    by (auto simp: ident_start_def go_space_def Let_def)
  have "\<not> go_space (last f)"
    using f cf by (intro ident_char_not_space field_name_chars) auto
  then have "dropWhile go_space (rev f) = rev f"
    by (rule dropWhile_rev_last [rotated]) (simp add: cf)
  with \<open>\<not> go_space c\<close> cf have "strip_spaces f = f" by (simp add: strip_spaces_def)
  with f k cf \<open>c \<noteq> CHR ''.''\<close> show ?thesis by (simp add: parse_action_def)
qed

lemma parse_template_action:
  assumes "\<not> sublist ''{{'' (t @ ''{'')" and "field_name f"
  shows "parse_template (t @ ''{{ .'' @ f @ '' }}'' @ r) =
    (case parse_template r of Inl e \<Rightarrow> Inl e | Inr ps \<Rightarrow> Inr (text_piece t @ Field f # ps))"
proof -
  have open_at: "split_on ''{{'' (t @ ''{{'' @ ('' .'' @ f @ '' }}'' @ r)) = Some (t, '' .'' @ f @ '' }}'' @ r)"
    by (rule split_on_append_first) (use assms(1) in simp_all)
  have close_at: "split_on ''}}'' (('' .'' @ f @ '' '') @ ''}}'' @ r) = Some ('' .'' @ f @ '' '', r)"
    by (rule split_on_append_first) (use no_close_in_action [OF assms(2)] in simp_all)
  have o: "split_on ''{{'' (t @ ''{{ .'' @ f @ '' }}'' @ r) = Some (t, '' .'' @ f @ '' }}'' @ r)"
    using open_at by simp
  have c: "split_on ''}}'' ('' .'' @ f @ '' }}'' @ r) = Some ('' .'' @ f @ '' '', r)"
    using close_at by simp
  show ?thesis
    by (subst parse_template.simps)
      (simp only: o c prod.case option.case action.case parse_action_field [OF assms(2)])
qed

lemma lexed_text_field:
  "\<not> sublist ''{{'' t \<Longrightarrow> lexed_pieces (Field f # ps) \<Longrightarrow> lexed_pieces (text_piece t @ Field f # ps)"
  by (simp add: text_piece_def)

lemma no_open_in_brace: "\<not> sublist ''{{'' ([] @ ''{'')"
  by code_simp

subsection \<open>Rendering the fixed template\<close>

lemma spiderTemplate_parse: "parse_template spiderTemplate = Inr spider_pieces"
  by code_simp

lemma execute_spider_pieces:
  "execute spider_pieces sp =
     (render_spec (html_escape (Name sp)) (html_escape (Doc sp)) (html_escape (URL sp)), None)"
  by (simp add: spider_pieces_def render_spec_def)

lemma length_render_spec:
  "length (render_spec n d u) =
     length (render_spec [] [] []) + 3 * length n + length d + length u"
  by (simp add: render_spec_def)

text \<open>
  The rendering as fixed texts woven with the values; no fixed text of the template
  holds a \<open>{\<close>, so \<open>{{\<close> appears in a rendering only inside a value.
\<close>

lemma render_spec_weave:
  "render_spec n d u =
     weave (''\<newline># -*- coding: utf-8 -*-\<newline>\<newline>'' @ triple_quote)
       [(n, ''.\<newline>\<newline>''), (d, ''\<newline>\<newline>'' @ triple_quote @ ''\<newline>\<newline>import scrapy\<newline>\<newline>\<newline>class ''),
        (n, ''Spider(scrapy.Spider):\<newline>\<newline>    name = '' @ [squote]),
        (n, [squote] @ ''\<newline>    start_urls = [ ''),
        (u, '' ]\<newline>\<newline>    def parse(self, response):\<newline>        print(response.body)\<newline>'')]"
  by (simp add: render_spec_def)

lemma render_spec_brace_pair:
  "sublist [lbrace, lbrace] (render_spec n d u) \<longleftrightarrow>
     sublist [lbrace, lbrace] n \<or> sublist [lbrace, lbrace] d \<or> sublist [lbrace, lbrace] u"
  unfolding render_spec_weave
  by (subst sublist_pair_weave)
    (auto simp: lbrace_def triple_quote_def dquote_def squote_def)

text \<open>The fixed text adds no markup character, and decodes to itself.\<close>

lemma render_spec_no_markup:
  "set (render_spec (html_escape n) (html_escape d) (html_escape u)) \<inter> {nul, CHR ''<'', CHR ''>'', CHR ''+''} = {}"
  unfolding render_spec_def
  by (auto simp: triple_quote_def dquote_def squote_def nul_def html_escape_no_markup(1) [unfolded nul_def])

lemma html_unescape_render:
  assumes "nul \<notin> set n" "nul \<notin> set d" "nul \<notin> set u"
  shows "html_unescape (render_spec (html_escape n) (html_escape d) (html_escape u)) = render_spec n d u"
  unfolding render_spec_def triple_quote_def
  by (simp add: html_unescape_plain html_unescape_escape_append assms dquote_def squote_def del: html_escape_append)


text \<open>
  C4. The spec says the renderer substitutes each value verbatim. Executing the
  parsed template gives the spec's verbatim rendering exactly when none of the
  three values holds a character the HTML escaper rewrites.
\<close>

theorem execute_verbatim_iff:
  "execute spider_pieces sp = (render_spec (Name sp) (Doc sp) (URL sp), None) \<longleftrightarrow>
   (set (Name sp) \<union> set (Doc sp) \<union> set (URL sp)) \<inter> html_special = {}"
  (is "?exec \<longleftrightarrow> ?plain")
proof
  assume ?exec
  then have eq: "render_spec (html_escape (Name sp)) (html_escape (Doc sp)) (html_escape (URL sp))
      = render_spec (Name sp) (Doc sp) (URL sp)"
    by (simp add: execute_spider_pieces)
  have n: "length (Name sp) \<le> length (html_escape (Name sp))"
    and d: "length (Doc sp) \<le> length (html_escape (Doc sp))"
    and u: "length (URL sp) \<le> length (html_escape (URL sp))"
    by (rule length_html_escape_ge)+
  from arg_cong [OF eq, of length] n d u
  have "length (html_escape (Name sp)) = length (Name sp)"
    and "length (html_escape (Doc sp)) = length (Doc sp)"
    and "length (html_escape (URL sp)) = length (URL sp)"
    by (simp_all add: length_render_spec [of "html_escape _"] length_render_spec [of "Name sp"])
  then show ?plain
    using length_html_escape_special [of _ "Name sp"] length_html_escape_special [of _ "Doc sp"]
      length_html_escape_special [of _ "URL sp"]
    by fastforce
next
  assume ?plain
  then show ?exec by (simp add: execute_spider_pieces html_escape_plain Int_Un_distrib2)
qed

text \<open>
  C16. Parsing is a left inverse of printing on well-formed piece lists: the lexer
  and parser read back every text node and field action exactly, so the parse of
  the fixed template is faithful to its text.
\<close>

theorem parse_print_template: "wf_pieces ps \<Longrightarrow> parse_template (print_template ps) = Inr ps"
proof (induction ps rule: wf_pieces.induct)
  case 1
  then show ?case by (subst parse_template.simps) (simp add: print_template_def text_piece_def)
next
  case (2 t ps)
  show ?case
  proof (cases ps)
    case Nil
    have "\<not> sublist ''{{'' t" using "2.prems" by (auto simp: sublist_append)
    then have "split_on ''{{'' t = None" by (simp add: split_on_None)
    with "2.prems" Nil show ?thesis
      by (subst parse_template.simps) (simp add: print_template_def text_piece_def)
  next
    case (Cons p ps')
    then obtain f where p: "p = Field f" using "2.prems" by (cases p) auto
    with "2.prems" Cons have wf: "\<not> sublist ''{{'' (t @ ''{'')" "field_name f" "wf_pieces ps'" "t \<noteq> []"
      by auto
    from "2.IH" Cons p "2.prems" have ihf: "parse_template (print_template (Field f # ps')) = Inr (Field f # ps')"
      by simp
    have pe: "print_template (Field f # ps') = [] @ ''{{ .'' @ f @ '' }}'' @ print_template ps'"
      by (simp add: print_template_def)
    from ihf [unfolded pe, unfolded parse_template_action [OF no_open_in_brace wf(2)]]
    have ih: "parse_template (print_template ps') = Inr ps'"
      by (auto simp: text_piece_def split: sum.splits)
    show ?thesis
      using parse_template_action [OF wf(1,2), of "print_template ps'"] ih wf(4) Cons p
      by (simp add: print_template_def text_piece_def)
  qed
next
  case (3 f ps)
  then have f: "field_name f" and ih: "parse_template (print_template ps) = Inr ps" by simp_all
  have pe: "print_template (Field f # ps) = [] @ ''{{ .'' @ f @ '' }}'' @ print_template ps"
    by (simp add: print_template_def)
  show ?case
    unfolding pe parse_template_action [OF no_open_in_brace f] using ih by (simp add: text_piece_def)
qed

theorem parse_print_template_witness: "wf_pieces spider_pieces \<and> parse_template (print_template spider_pieces) = Inr spider_pieces"
proof -
  have h: "wf_pieces spider_pieces" unfolding spider_pieces_def triple_quote_def by code_simp
  show ?thesis using h parse_print_template [OF h] by simp
qed

text \<open>
  C19. Every template the parser accepts yields a well-typed piece list: non-empty
  text nodes without \<open>{{\<close>, never two adjacent, and actions naming fields with
  Go identifiers (so execution only ever looks up identifiers).
\<close>

theorem parse_template_lexed: "parse_template s = Inr ps \<Longrightarrow> lexed_pieces ps"
proof (induction s arbitrary: ps rule: parse_template.induct)
  case (1 s)
  show ?case
  proof (cases "split_on ''{{'' s")
    case None
    with "1.prems" have "ps = text_piece s" by (simp add: parse_template.simps [of s])
    moreover from None have "\<not> sublist ''{{'' s" by (simp add: split_on_None)
    ultimately show ?thesis by (simp add: text_piece_def)
  next
    case (Some p)
    obtain before rest where p: "p = (before, rest)" by fastforce
    from "1.prems" Some p obtain inner after f ps' where
      c: "split_on ''}}'' rest = Some (inner, after)" and a: "parse_action inner = Act_field f"
      and r: "parse_template after = Inr ps'" and ps: "ps = text_piece before @ Field f # ps'"
      by (auto simp: parse_template.simps [of s] split: option.splits sum.splits action.splits if_splits)
    have "lexed_pieces ps'" using "1.IH" [OF Some p [symmetric] c refl a r] .
    moreover have "field_name f" using a by (simp add: parse_action_def split: list.splits if_splits)
    moreover have "\<not> sublist ''{{'' (before @ butlast ''{{'')"
      using split_on_first [OF Some [unfolded p]] by simp
    then have "\<not> sublist ''{{'' before" by (auto simp: sublist_append)
    ultimately show ?thesis using ps by (simp add: lexed_text_field)
  qed
qed

theorem parse_template_lexed_witness:
  "parse_template spiderTemplate = Inr spider_pieces \<and> lexed_pieces spider_pieces"
  using spiderTemplate_parse parse_template_lexed [OF spiderTemplate_parse] by simp

text \<open>
  C20. The spec writes the placeholders as \<open>{{Name}}\<close>, \<open>{{Doc}}\<close>, \<open>{{URL}}\<close>.
  In Go's template language a field needs the leading dot: a template written with
  the spec's placeholders is rejected by \<open>Parse\<close>: a bare name that is neither a
  keyword nor a builtin function is a call of a function the empty \<open>FuncMap\<close>
  does not define, so \<open>Parse\<close> fails with "function not defined" and the program
  would panic at line 73.
\<close>

theorem spec_placeholder_rejected:
  assumes "\<not> sublist ''{{'' (t @ ''{'')" and "field_name f"
    and "f \<notin> set go_template_keywords" and "f \<notin> set go_builtin_funcs"
  shows "parse_template (t @ ''{{'' @ f @ ''}}'' @ r) = Inl (Undefined_function f)"
proof -
  have o: "split_on ''{{'' (t @ ''{{'' @ (f @ ''}}'' @ r)) = Some (t, f @ ''}}'' @ r)"
    by (rule split_on_append_first) (use assms(1) in simp_all)
  have c: "split_on ''}}'' (f @ ''}}'' @ r) = Some (f, r)"
    by (rule split_on_append_first) (use no_close_in_field [OF assms(2)] in simp_all)
  show ?thesis
    by (subst parse_template.simps)
      (simp only: o c prod.case option.case action.case parse_action_bare_field [OF assms(2,3)] fmap_def list.set(1) Un_empty_right assms(4) if_False)
qed

theorem spec_placeholder_rejected_witness:
  "\<not> sublist ''{{'' (''name = '' @ ''{'') \<and> field_name ''Name'' \<and>
   ''Name'' \<notin> set go_template_keywords \<and> ''Name'' \<notin> set go_builtin_funcs \<and>
   parse_template (''name = '' @ ''{{'' @ ''Name'' @ ''}}'' @ []) = Inl (Undefined_function ''Name'')"
proof -
  have h1: "\<not> sublist ''{{'' (''name = '' @ ''{'')" by code_simp
  have h2: "field_name ''Name''" by (simp add: field_name_def ident_start_def ident_char_def)
  have h3: "''Name'' \<notin> set go_template_keywords" by (simp add: go_template_keywords_def)
  have h4: "''Name'' \<notin> set go_builtin_funcs" by (simp add: go_builtin_funcs_def)
  show ?thesis using h1 h2 h3 h4 spec_placeholder_rejected [OF h1 h2 h3 h4, of "[]"] by blast
qed

text \<open>
  C32. The error path of \<open>Execute\<close> (line 76, followed by the \<open>panic\<close> of line
  77): execution fails exactly at the first action whose field \<open>Spider\<close> does
  not have, and what it wrote to standard output before failing is the complete
  output of the pieces in front of that action.
\<close>

theorem execute_error_prefix:
  "execute ps sp = (out, Some e) \<Longrightarrow>
   \<exists>pre f post. ps = pre @ Field f # post \<and> e = No_field f \<and> spider_field sp f = None \<and>
     list_all (\<lambda>g. spider_field sp g \<noteq> None) (template_fields pre) \<and> execute pre sp = (out, None)"
proof (induction ps sp arbitrary: out rule: execute.induct)
  case (1 sp)
  then show ?case by simp
next
  case (2 t ps sp)
  then obtain out' where ex: "execute ps sp = (out', Some e)" and out: "out = t @ out'"
    by (cases "execute ps sp") auto
  from "2.IH" [OF ex] obtain pre f post where
    "ps = pre @ Field f # post" "e = No_field f" "spider_field sp f = None"
    "list_all (\<lambda>g. spider_field sp g \<noteq> None) (template_fields pre)" "execute pre sp = (out', None)"
    by blast
  with out show ?case
    by (intro exI [of _ "Text t # pre"] exI [of _ f] exI [of _ post]) (simp add: template_fields_def)
next
  case (3 f ps sp)
  show ?case
  proof (cases "spider_field sp f")
    case None
    with "3.prems" show ?thesis
      by (intro exI [of _ "[]"] exI [of _ f] exI [of _ ps]) (simp add: template_fields_def)
  next
    case (Some v)
    with "3.prems" obtain out' where ex: "execute ps sp = (out', Some e)" and out: "out = html_escape v @ out'"
      by (cases "execute ps sp") auto
    from "3.IH" [OF Some ex] obtain pre g post where
      "ps = pre @ Field g # post" "e = No_field g" "spider_field sp g = None"
      "list_all (\<lambda>g. spider_field sp g \<noteq> None) (template_fields pre)" "execute pre sp = (out', None)"
      by blast
    with out Some show ?thesis
      by (intro exI [of _ "Field f # pre"] exI [of _ g] exI [of _ post]) (simp add: template_fields_def)
  qed
qed

theorem execute_error_prefix_witness:
  "execute [Text ''a'', Field ''Name'', Field ''Owner'', Text ''b''] \<lparr>Name = ''X'', Doc = [], URL = []\<rparr>
     = (''aX'', Some (No_field ''Owner'')) \<and>
   (\<exists>pre f post. [Text ''a'', Field ''Name'', Field ''Owner'', Text ''b''] = pre @ Field f # post \<and>
     No_field ''Owner'' = No_field f \<and> spider_field \<lparr>Name = ''X'', Doc = [], URL = []\<rparr> f = None \<and>
     list_all (\<lambda>g. spider_field \<lparr>Name = ''X'', Doc = [], URL = []\<rparr> g \<noteq> None) (template_fields pre) \<and>
     execute pre \<lparr>Name = ''X'', Doc = [], URL = []\<rparr> = (''aX'', None))"
proof -
  have h: "execute [Text ''a'', Field ''Name'', Field ''Owner'', Text ''b''] \<lparr>Name = ''X'', Doc = [], URL = []\<rparr>
     = (''aX'', Some (No_field ''Owner''))"
    by (simp add: spider_field_def html_escape_char_def html_replacement_table_def nul_def dquote_def
        squote_def fffd_utf8_def)
  show ?thesis using h execute_error_prefix [OF h] by blast
qed

end
