(* ===== verification/Swissknife.thy ===== *)
theory Swissknife
  imports Process Go_Flag Go_Template
begin

text \<open>
  The program: \<open>main\<close> of src/tools/cli/swissknife.go (lines 49--79). It defines
  the three flags, parses the command line, stops with status 1 when the name is
  empty, builds the \<open>Spider\<close>, parses the fixed template (panicking on an error),
  executes it into standard output (panicking on an error) and returns.
\<close>

subsection \<open>The program's flags and messages\<close>

text \<open>Lines 50--53: \<open>flag.String\<close> for \<open>name\<close>, \<open>doc\<close> and \<open>url\<close>, in this order.\<close>

definition swissknife_flags :: "flag_set option" where
  "swissknife_flags =
     Option.bind (flag_string ''name'' [] Map.empty)
       (\<lambda>fs. Option.bind (flag_string ''doc'' [] fs) (flag_string ''url'' ''www.example.com''))"

text \<open>The flag set the three definitions build, with the defaults.\<close>

definition cli_defaults :: flag_set where
  "cli_defaults = [''name'' \<mapsto> [], ''doc'' \<mapsto> [], ''url'' \<mapsto> ''www.example.com'']"

definition name_error :: go_string where
  "name_error = ''error: a spider needs a name\<newline>''"

definition tmpl_error_msg :: "tmpl_error \<Rightarrow> go_string" where
  "tmpl_error_msg e =
     (case e of
        Unclosed_action \<Rightarrow> ''template: spider: unclosed action''
      | Undefined_function g \<Rightarrow> ''template: spider: function '' @ [dquote] @ g @ [dquote] @ '' not defined''
      | Unsupported_action a \<Rightarrow> ''template: spider: unsupported action: '' @ a)"

definition exec_error_msg :: "exec_error \<Rightarrow> go_string" where
  "exec_error_msg e =
     (case e of
        No_field f \<Rightarrow>
          ''template: spider: can'' @ [squote] @ ''t evaluate field '' @ f @ '' in type *main.Spider'')"

subsection \<open>The body of main\<close>

text \<open>
  Lines 70--78: parse the template and execute it into standard output; an error
  of either step panics (what execution wrote before its error stays written).
\<close>

definition run_template :: "spider \<Rightarrow> world \<Rightarrow> world" where
  "run_template spider w =
     (case parse_template spiderTemplate of
        Inl err \<Rightarrow> io_step (Go_panic (tmpl_error_msg err)) w
      | Inr t \<Rightarrow>
          (case execute t spider of
             (out, None) \<Rightarrow> io_step (Write_stdout out) w
           | (out, Some err) \<Rightarrow> io_step (Go_panic (exec_error_msg err)) (io_step (Write_stdout out) w)))"

text \<open>
  Lines 59--79, after \<open>flag.Parse\<close>: the name check with its \<open>fmt.Printf\<close> and
  \<open>os.Exit(1)\<close>, the \<open>Spider\<close> literal, the template, and the return from
  \<open>main\<close> (exit status 0).
\<close>

definition main_flags_parsed :: "flag_set \<Rightarrow> world \<Rightarrow> world" where
  "main_flags_parsed fs w =
     (let spiderName = flag_value fs ''name'';
          spiderDoc = flag_value fs ''doc'';
          spiderURL = flag_value fs ''url'';
          w = (if spiderName = [] then io_step (Os_exit 1) (io_step (Write_stdout name_error) w) else w);
          spider = \<lparr>Name = spiderName, Doc = spiderDoc, URL = spiderURL\<rparr>
      in io_step (Os_exit 0) (run_template spider w))"

text \<open>
  The whole of \<open>main\<close> on the arguments \<open>os.Args[1:]\<close>. Under \<open>ExitOnError\<close>,
  \<open>flag.Parse\<close> itself ends the process: after printing the error and the usage
  with status 2, after printing the usage for \<open>-h\<close> with status 0.
\<close>

definition main :: "go_string list \<Rightarrow> world" where
  "main args =
     (case swissknife_flags of
        None \<Rightarrow> io_step (Go_panic ''flag redefined'') initial_world
      | Some fs \<Rightarrow>
          (case flag_parse fs args of
             Flags_failed msg \<Rightarrow>
               io_step (Os_exit 2)
                 (io_step (Write_stderr Usage) (io_step (Write_stderr (Err_text (msg @ ''\<newline>''))) initial_world))
           | Flags_help \<Rightarrow> io_step (Os_exit 0) (io_step (Write_stderr Usage) initial_world)
           | Flags_parsed fs' rest \<Rightarrow> main_flags_parsed fs' initial_world))"

subsection \<open>How main ends\<close>

lemma swissknife_flags_eq: "swissknife_flags = Some cli_defaults"
  by (simp add: swissknife_flags_def flag_string_def cli_defaults_def)

lemma cli_defaults_dom: "dom cli_defaults = {''name'', ''doc'', ''url''}"
  by (auto simp: cli_defaults_def)

lemma run_template_eq:
  "run_template sp w =
     io_step (Write_stdout (render_spec (html_escape (Name sp)) (html_escape (Doc sp))
       (html_escape (URL sp)))) w"
  by (simp add: run_template_def spiderTemplate_parse execute_spider_pieces)

lemma main_flags_parsed_empty:
  "flag_value fs ''name'' = [] \<Longrightarrow>
   main_flags_parsed fs initial_world = \<lparr>stdout = name_error, stderr = [], status = Exited 1\<rparr>"
  by (simp add: main_flags_parsed_def run_template_eq initial_world_def running_def)

lemma main_flags_parsed_render:
  "flag_value fs ''name'' \<noteq> [] \<Longrightarrow>
   main_flags_parsed fs initial_world =
     \<lparr>stdout = render_spec (html_escape (flag_value fs ''name'')) (html_escape (flag_value fs ''doc''))
                 (html_escape (flag_value fs ''url'')),
      stderr = [], status = Exited 0\<rparr>"
  by (simp add: main_flags_parsed_def run_template_eq initial_world_def running_def)

lemma main_parsed:
  "flag_parse cli_defaults args = Flags_parsed fs rest \<Longrightarrow> main args = main_flags_parsed fs initial_world"
  by (simp add: main_def swissknife_flags_eq)

lemma main_failed:
  "flag_parse cli_defaults args = Flags_failed msg \<Longrightarrow>
   main args = \<lparr>stdout = [], stderr = [Err_text (msg @ ''\<newline>''), Usage], status = Exited 2\<rparr>"
  by (simp add: main_def swissknife_flags_eq initial_world_def running_def)

lemma main_help:
  "flag_parse cli_defaults args = Flags_help \<Longrightarrow>
   main args = \<lparr>stdout = [], stderr = [Usage], status = Exited 0\<rparr>"
  by (simp add: main_def swissknife_flags_eq initial_world_def running_def)

text \<open>Command lines that set the flags with \<open>-flag=value\<close>.\<close>

lemma cli_defaults_defined:
  "flag_name_ok ''name''" "flag_name_ok ''doc''" "flag_name_ok ''url''"
  "cli_defaults ''name'' \<noteq> None" "cli_defaults ''doc'' \<noteq> None" "cli_defaults ''url'' \<noteq> None"
  by (simp_all add: flag_name_ok_def cli_defaults_def)

lemma flag_parse_cli_name:
  "flag_parse cli_defaults [''-name='' @ n] = Flags_parsed (cli_defaults(''name'' \<mapsto> n)) []"
proof -
  note s1 = flag_parse_assign [of "''name''" cli_defaults n "[]",
      OF cli_defaults_defined(1,4)]
  from s1 show ?thesis by (simp del: flag_parse.simps add: flag_parse.simps(1))
qed

lemma flag_parse_cli_name_doc:
  "flag_parse cli_defaults [''-name='' @ n, ''-doc='' @ d] =
     Flags_parsed (cli_defaults(''name'' \<mapsto> n, ''doc'' \<mapsto> d)) []"
proof -
  note s1 = flag_parse_assign [of "''name''" cli_defaults n "[''-doc='' @ d]",
      OF cli_defaults_defined(1,4)]
  note s2 = flag_parse_assign [of "''doc''" "cli_defaults(''name'' \<mapsto> n)" d "[]",
      OF cli_defaults_defined(2)]
  from s1 s2 cli_defaults_defined show ?thesis by (simp del: flag_parse.simps add: flag_parse.simps(1))
qed

lemma flag_parse_cli_all:
  "flag_parse cli_defaults [''-name='' @ n, ''-doc='' @ d, ''-url='' @ u] =
     Flags_parsed (cli_defaults(''name'' \<mapsto> n, ''doc'' \<mapsto> d, ''url'' \<mapsto> u)) []"
proof -
  note s1 = flag_parse_assign [of "''name''" cli_defaults n "[''-doc='' @ d, ''-url='' @ u]",
      OF cli_defaults_defined(1,4)]
  note s2 = flag_parse_assign [of "''doc''" "cli_defaults(''name'' \<mapsto> n)" d "[''-url='' @ u]",
      OF cli_defaults_defined(2)]
  note s3 = flag_parse_assign [of "''url''" "cli_defaults(''name'' \<mapsto> n, ''doc'' \<mapsto> d)" u "[]",
      OF cli_defaults_defined(3)]
  from s1 s2 s3 cli_defaults_defined show ?thesis by (simp del: flag_parse.simps add: flag_parse.simps(1))
qed

text \<open>Every way main can end, in one case split.\<close>

lemma main_cases:
  obtains (render) fs rest where "flag_parse cli_defaults args = Flags_parsed fs rest"
      "flag_value fs ''name'' \<noteq> []"
      "main args = \<lparr>stdout = render_spec (html_escape (flag_value fs ''name''))
         (html_escape (flag_value fs ''doc'')) (html_escape (flag_value fs ''url'')),
         stderr = [], status = Exited 0\<rparr>"
  | (no_name) "main args = \<lparr>stdout = name_error, stderr = [], status = Exited 1\<rparr>"
  | (failed) msg where "main args = \<lparr>stdout = [], stderr = [Err_text (msg @ ''\<newline>''), Usage], status = Exited 2\<rparr>"
  | (usage) "main args = \<lparr>stdout = [], stderr = [Usage], status = Exited 0\<rparr>"
proof (cases "flag_parse cli_defaults args")
  case (Flags_parsed fs rest)
  show ?thesis
  proof (cases "flag_value fs ''name'' = []")
    case True
    show ?thesis
      by (rule no_name) (simp add: main_parsed [OF Flags_parsed] main_flags_parsed_empty [OF True])
  next
    case False
    show ?thesis
      by (rule render [OF Flags_parsed False])
        (simp add: main_parsed [OF Flags_parsed] main_flags_parsed_render [OF False])
  qed
next
  case (Flags_failed msg)
  show ?thesis by (rule failed) (rule main_failed [OF Flags_failed])
next
  case Flags_help
  show ?thesis by (rule usage) (rule main_help [OF Flags_help])
qed

subsection \<open>Properties of main\<close>

text \<open>
  C2. When the parsed name is empty (no \<open>-name\<close>, or \<open>-name=\<close>), main prints
  "error: a spider needs a name" on standard output, not standard error as the
  spec says, renders nothing, and exits with status 1.
\<close>

theorem main_empty_name:
  assumes "flag_parse cli_defaults args = Flags_parsed fs rest" and "flag_value fs ''name'' = []"
  shows "main args = \<lparr>stdout = name_error, stderr = [], status = Exited 1\<rparr>"
  using main_parsed [OF assms(1)] main_flags_parsed_empty [OF assms(2)] by simp

theorem main_empty_name_witness:
  "flag_parse cli_defaults [''-doc=x''] = Flags_parsed (cli_defaults(''doc'' \<mapsto> ''x'')) [] \<and>
   flag_value (cli_defaults(''doc'' \<mapsto> ''x'')) ''name'' = [] \<and>
   main [''-doc=x''] = \<lparr>stdout = name_error, stderr = [], status = Exited 1\<rparr>"
proof -
  have h1: "flag_parse cli_defaults [''-doc=x''] = Flags_parsed (cli_defaults(''doc'' \<mapsto> ''x'')) []"
    by (simp add: cli_defaults_def split_flag_arg_def)
  have h2: "flag_value (cli_defaults(''doc'' \<mapsto> ''x'')) ''name'' = []"
    by (simp add: cli_defaults_def flag_value_def)
  show ?thesis using h1 h2 main_empty_name [OF h1 h2] by simp
qed

text \<open>
  C3. Whatever the command line, main never panics and never keeps running: it
  ends with status 0 (rendered, or usage on request), 1 (empty name) or 2 (bad
  command line). Both \<open>panic\<close> calls and the flag redefinition panic are dead.
\<close>

theorem main_never_panics: "status (main args) \<in> {Exited 0, Exited 1, Exited 2}"
proof (cases "flag_parse cli_defaults args")
  case (Flags_parsed fs rest)
  then show ?thesis
    using main_parsed [OF Flags_parsed] main_flags_parsed_empty [of fs]
      main_flags_parsed_render [of fs]
    by (cases "flag_value fs ''name'' = []") simp_all
next
  case (Flags_failed msg)
  then show ?thesis by (simp add: main_failed)
next
  case Flags_help
  then show ?thesis by (simp add: main_help)
qed

text \<open>
  C12. A well-formed flag that the program does not define ends the process with
  status 2, the error and the usage on standard error, and nothing on standard
  output.
\<close>

theorem main_undefined_flag:
  assumes "flag_name_ok k" and "k \<notin> {''name'', ''doc'', ''url'', ''help'', ''h''}"
  shows "main ((''-'' @ k @ ''='' @ v) # args) =
    \<lparr>stdout = [], stderr = [Err_text (''flag provided but not defined: -'' @ k @ ''\<newline>''), Usage],
     status = Exited 2\<rparr>"
proof -
  from assms(2) have "cli_defaults k = None" by (simp add: cli_defaults_def)
  with assms have "flag_parse cli_defaults ((''-'' @ k @ ''='' @ v) # args) =
      Flags_failed (''flag provided but not defined: -'' @ k)"
    by (intro flag_parse_undefined) auto
  then show ?thesis by (simp add: main_failed)
qed

theorem main_undefined_flag_witness:
  "flag_name_ok ''type'' \<and> ''type'' \<notin> {''name'', ''doc'', ''url'', ''help'', ''h''} \<and>
   main [''-type=ais''] =
    \<lparr>stdout = [], stderr = [Err_text (''flag provided but not defined: -type\<newline>''), Usage],
     status = Exited 2\<rparr>"
proof -
  have h1: "flag_name_ok ''type''" by (simp add: flag_name_ok_def)
  have h2: "''type'' \<notin> {''name'', ''doc'', ''url'', ''help'', ''h''}" by simp
  show ?thesis using h1 h2 main_undefined_flag [OF h1 h2, of "''ais''" "[]"] by simp
qed

text \<open>
  C14. \<open>-h\<close>, \<open>-help\<close> and \<open>--help\<close> print the usage on standard error and end
  the process with status 0, before any other argument is looked at.
\<close>

theorem main_help_flag:
  "main (''-h'' # args) = \<lparr>stdout = [], stderr = [Usage], status = Exited 0\<rparr> \<and>
   main (''-help'' # args) = \<lparr>stdout = [], stderr = [Usage], status = Exited 0\<rparr> \<and>
   main (''--help'' # args) = \<lparr>stdout = [], stderr = [Usage], status = Exited 0\<rparr>"
proof -
  have "cli_defaults ''h'' = None" and "cli_defaults ''help'' = None"
    by (simp_all add: cli_defaults_def)
  note hs = flag_parse_help [OF this, of args]
  show ?thesis by (intro conjI main_help hs)
qed

text \<open>
  C26. The spec passes the flags on as a map; the code stops reading flags at the
  first argument that is not one: after a positional word (the sub-command of the
  TODO at line 55 included) every later argument is ignored, a later \<open>-url=...\<close>
  too, and main behaves as if the command line ended there.
\<close>

theorem main_ignores_after_positional:
  assumes "\<forall>(k, v) \<in> set kvs. flag_name_ok k \<and> cli_defaults k \<noteq> None"
    and "p \<noteq> []" and "hd p \<noteq> CHR ''-''"
  shows "main (flag_args kvs @ p # rest) = main (flag_args kvs)"
proof -
  have a: "flag_parse cli_defaults (flag_args kvs @ p # rest) = Flags_parsed (set_flags cli_defaults kvs) (p # rest)"
    using flag_parse_flag_args [OF assms(1)] flag_parse_positional [OF assms(2,3)] by simp
  have b: "flag_parse cli_defaults (flag_args kvs) = Flags_parsed (set_flags cli_defaults kvs) []"
    using flag_parse_flag_args [OF assms(1), of "[]"] by simp
  show ?thesis by (simp only: main_parsed [OF a] main_parsed [OF b])
qed

theorem main_ignores_after_positional_witness:
  "flag_name_ok ''name'' \<and> cli_defaults ''name'' \<noteq> None \<and> ''new'' \<noteq> [] \<and> hd ''new'' \<noteq> CHR ''-'' \<and>
   main [''-name=A'', ''new'', ''-url=www.mt.com''] = main [''-name=A'']"
proof -
  have h1: "\<forall>(k, v) \<in> set [(''name'', ''A'')]. flag_name_ok k \<and> cli_defaults k \<noteq> None"
    by (simp add: flag_name_ok_def cli_defaults_def)
  have h2: "''new'' \<noteq> []" and h3: "hd ''new'' \<noteq> CHR ''-''" by simp_all
  have e: "flag_args [(''name'', ''A'')] = [''-name=A'']" by (simp add: flag_args_def)
  have "main (flag_args [(''name'', ''A'')] @ ''new'' # [''-url=www.mt.com'']) = main (flag_args [(''name'', ''A'')])"
    by (rule main_ignores_after_positional [OF h1 h2 h3])
  then have "main [''-name=A'', ''new'', ''-url=www.mt.com''] = main [''-name=A'']" by (simp only: e append_Cons append_Nil)
  moreover have "flag_name_ok ''name'' \<and> cli_defaults ''name'' \<noteq> None" using h1 by simp
  ultimately show ?thesis using h2 h3 by blast
qed

text \<open>
  C29. A defined flag given last without a value (\<open>-url\<close> at the end of the
  command line, after any settings) ends the process with status 2, the error
  "flag needs an argument" and the usage on standard error, nothing on standard
  output.
\<close>

theorem main_flag_needs_argument:
  assumes "\<forall>(k', v') \<in> set kvs. flag_name_ok k' \<and> cli_defaults k' \<noteq> None"
    and "k \<in> {''name'', ''doc'', ''url''}"
  shows "main (flag_args kvs @ [''-'' @ k]) =
    \<lparr>stdout = [], stderr = [Err_text (''flag needs an argument: -'' @ k @ ''\<newline>''), Usage], status = Exited 2\<rparr>"
proof -
  from assms(2) have ok: "flag_name_ok k" and def: "cli_defaults k \<noteq> None"
    by (auto simp: flag_name_ok_def cli_defaults_def)
  have "flag_parse cli_defaults (flag_args kvs @ [''-'' @ k]) =
      Flags_failed (''flag needs an argument: -'' @ k)"
    using flag_parse_flag_args [OF assms(1)] flag_parse_missing_value [where k = k and fs = "set_flags cli_defaults kvs", OF ok set_flags_defined [where fs = cli_defaults and k = k and kvs = kvs, OF def]]
    by simp
  then show ?thesis by (simp add: main_failed)
qed

theorem main_flag_needs_argument_witness:
  "flag_name_ok ''name'' \<and> cli_defaults ''name'' \<noteq> None \<and> ''url'' \<in> {''name'', ''doc'', ''url''} \<and>
   main [''-name=A'', ''-url''] =
    \<lparr>stdout = [], stderr = [Err_text (''flag needs an argument: -'' @ ''url'' @ ''\<newline>''), Usage], status = Exited 2\<rparr>"
proof -
  have h1: "\<forall>(k', v') \<in> set [(''name'', ''A'')]. flag_name_ok k' \<and> cli_defaults k' \<noteq> None"
    by (simp add: flag_name_ok_def cli_defaults_def)
  have h2: "''url'' \<in> {''name'', ''doc'', ''url''}" by simp
  have e: "flag_args [(''name'', ''A'')] @ [''-'' @ ''url''] = [''-name=A'', ''-url'']" by (simp add: flag_args_def)
  have "main (flag_args [(''name'', ''A'')] @ [''-'' @ ''url'']) =
    \<lparr>stdout = [], stderr = [Err_text (''flag needs an argument: -'' @ ''url'' @ ''\<newline>''), Usage], status = Exited 2\<rparr>"
    by (rule main_flag_needs_argument [OF h1 h2])
  then have "main [''-name=A'', ''-url''] =
    \<lparr>stdout = [], stderr = [Err_text (''flag needs an argument: -'' @ ''url'' @ ''\<newline>''), Usage], status = Exited 2\<rparr>"
    by (simp only: e)
  moreover have "flag_name_ok ''name'' \<and> cli_defaults ''name'' \<noteq> None" using h1 by simp
  ultimately show ?thesis using h2 by blast
qed

text \<open>
  C30. A malformed flag (\<open>-=v\<close>, \<open>---f\<close>, \<open>--=v\<close>) ends the process with status
  2 and "bad flag syntax" with the argument as written, before anything is
  rendered and whatever follows it.
\<close>

theorem main_bad_flag_syntax:
  "main ((''-='' @ r) # args) =
     \<lparr>stdout = [], stderr = [Err_text (''bad flag syntax: -='' @ r @ ''\<newline>''), Usage], status = Exited 2\<rparr> \<and>
   main ((''---'' @ r) # args) =
     \<lparr>stdout = [], stderr = [Err_text (''bad flag syntax: ---'' @ r @ ''\<newline>''), Usage], status = Exited 2\<rparr> \<and>
   main ((''--='' @ r) # args) =
     \<lparr>stdout = [], stderr = [Err_text (''bad flag syntax: --='' @ r @ ''\<newline>''), Usage], status = Exited 2\<rparr>"
  using main_failed [OF flag_parse_bad_syntax(1)] main_failed [OF flag_parse_bad_syntax(2)]
    main_failed [OF flag_parse_bad_syntax(3)]
  by simp

text \<open>
  C31. The program never writes to both streams: it ends with output on standard
  output (rendered, or the empty-name message) or on standard error (a bad
  command line, or the usage on request), and whatever it wrote to standard
  error ends with the usage listing.
\<close>

theorem main_one_stream:
  "(stdout (main args) = [] \<or> stderr (main args) = []) \<and>
   (stderr (main args) \<noteq> [] \<longrightarrow> last (stderr (main args)) = Usage)"
  by (cases args rule: main_cases) simp_all

theorem main_one_stream_witness:
  "stderr (main [''-h'']) \<noteq> [] \<and> last (stderr (main [''-h''])) = Usage \<and>
   (stdout (main [''-h'']) = [] \<or> stderr (main [''-h'']) = [])"
proof -
  have "cli_defaults ''h'' = None" and "cli_defaults ''help'' = None"
    by (simp_all add: cli_defaults_def)
  then have h: "stderr (main [''-h'']) \<noteq> []" by (simp add: main_help [OF flag_parse_help(1)])
  show ?thesis using h main_one_stream [of "[''-h'']"] by blast
qed

end
