(* ===== verification/Go_Flag_Loop.thy ===== *)
theory Go_Flag_Loop
  imports Go_Flag "HOL-Library.While_Combinator"
begin

text \<open>
  \<open>flag.Parse\<close> as the Go library writes it (line 57 of
  src/tools/cli/swissknife.go calls it): \<open>FlagSet.Parse\<close> is a \<open>for\<close> loop that
  calls \<open>parseOne\<close> until it reports that it saw no flag, and then stops, or
  exits on an error. \<open>parse_one\<close> is \<open>parseOne\<close> for string flags: its result
  is the pair \<open>(seen, err)\<close> of the Go function as one value of \<open>one_result\<close>,
  with the flag values and the remaining arguments \<open>f.args\<close> it leaves behind.
  \<open>parse_loop\<close> is the loop, as \<open>while_option\<close>, and \<open>flag_parse_go\<close> reads off
  its end the way \<open>Parse\<close> does under \<open>ExitOnError\<close>. The lemmas show that the
  loop always stops (the arguments shrink at every flag seen) and that it computes
  the structural recursion \<open>flag_parse\<close> of \<open>Go_Flag\<close>, which the rest of the
  development uses.
\<close>

datatype one_result =
    One_seen              \<comment> \<open>\<open>(true, nil)\<close>: a flag was set\<close>
  | One_done              \<comment> \<open>\<open>(false, nil)\<close>: no more flags\<close>
  | One_failed go_string  \<comment> \<open>\<open>(false, f.failf(...))\<close>\<close>
  | One_help              \<comment> \<open>\<open>(false, ErrHelp)\<close>\<close>

type_synonym parser = "one_result \<times> flag_set \<times> go_string list"

definition parse_one :: "flag_set \<Rightarrow> go_string list \<Rightarrow> parser" where
  "parse_one fs args =
     (case args of
        [] \<Rightarrow> (One_done, fs, [])
      | s # rest \<Rightarrow>
          (if length s < 2 \<or> s ! 0 \<noteq> CHR ''-'' then (One_done, fs, args)
           else if s ! 1 = CHR ''-'' \<and> length s = 2 then (One_done, fs, rest)
           else
             (let name = drop (if s ! 1 = CHR ''-'' then 2 else 1) s in
              if name = [] \<or> hd name = CHR ''-'' \<or> hd name = CHR ''=''
              then (One_failed (''bad flag syntax: '' @ s), fs, args)
              else
                (case split_flag_arg name of
                   (nm, v) \<Rightarrow>
                     if fs nm = None then
                       (if nm = ''help'' \<or> nm = ''h'' then (One_help, fs, rest)
                        else (One_failed (''flag provided but not defined: -'' @ nm), fs, rest))
                     else
                       (case v of
                          Some val \<Rightarrow> (One_seen, fs(nm \<mapsto> val), rest)
                        | None \<Rightarrow>
                            (case rest of
                               [] \<Rightarrow> (One_failed (''flag needs an argument: -'' @ nm), fs, [])
                             | a # rest' \<Rightarrow> (One_seen, fs(nm \<mapsto> a), rest')))))))"

text \<open>\<open>for { seen, err := f.parseOne(); if seen { continue }; ... }\<close>\<close>

definition parse_loop :: "flag_set \<Rightarrow> go_string list \<Rightarrow> parser option" where
  "parse_loop fs args =
     while_option (\<lambda>(r, _, _). r = One_seen) (\<lambda>(_, fs, args). parse_one fs args) (One_seen, fs, args)"

definition flag_parse_go :: "flag_set \<Rightarrow> go_string list \<Rightarrow> flag_outcome option" where
  "flag_parse_go fs args =
     map_option
       (\<lambda>(r, fs', args').
          case r of
            One_failed msg \<Rightarrow> Flags_failed msg
          | One_help \<Rightarrow> Flags_help
          | _ \<Rightarrow> Flags_parsed fs' args')
       (parse_loop fs args)"

text \<open>
  The loop with a bound on the number of \<open>parseOne\<close> calls: \<open>None\<close> when the
  bound is used up before \<open>parseOne\<close> reports that it saw no flag.
\<close>

fun parse_fuel :: "nat \<Rightarrow> flag_set \<Rightarrow> go_string list \<Rightarrow> parser option" where
  "parse_fuel 0 fs args = None"
| "parse_fuel (Suc n) fs args =
     (case parse_one fs args of
        (One_seen, fs', args') \<Rightarrow> parse_fuel n fs' args'
      | r \<Rightarrow> Some r)"

subsection \<open>One step of the loop\<close>

lemma parse_one_shrinks:
  "parse_one fs args = (r, fs', args') \<Longrightarrow> length args' + (if r = One_seen then 1 else 0) \<le> length args"
proof (cases args)
  case Nil
  then show "parse_one fs args = (r, fs', args') \<Longrightarrow> ?thesis" by (simp add: parse_one_def)
next
  case (Cons s rest)
  assume p: "parse_one fs args = (r, fs', args')"
  obtain nm v where sp: "split_flag_arg (drop (if s ! 1 = CHR ''-'' then 2 else 1) s) = (nm, v)"
    by (metis surj_pair)
  from p show ?thesis
    unfolding Cons parse_one_def list.case Let_def sp
    by (auto split: if_split_asm option.split_asm list.split_asm)
qed

lemma double_dash_iff:
  "\<not> length s < 2 \<Longrightarrow> s ! 0 = CHR ''-'' \<Longrightarrow> (s = ''--'') = (s ! 1 = CHR ''-'' \<and> length s = 2)"
  by (cases s rule: remdups_adj.cases) auto

lemma parse_one_flag_parse:
  "flag_parse fs args =
     (case parse_one fs args of
        (One_seen, fs', args') \<Rightarrow> flag_parse fs' args'
      | (One_done, fs', args') \<Rightarrow> Flags_parsed fs' args'
      | (One_failed msg, _) \<Rightarrow> Flags_failed msg
      | (One_help, _) \<Rightarrow> Flags_help)"
proof (cases args)
  case Nil
  then show ?thesis by (simp add: parse_one_def)
next
  case (Cons s rest)
  obtain nm v where sp: "split_flag_arg (drop (if s ! 1 = CHR ''-'' then 2 else 1) s) = (nm, v)"
    by (metis surj_pair)
  show ?thesis
  proof (cases "length s < 2 \<or> s ! 0 \<noteq> CHR ''-''")
    case True
    then show ?thesis by (simp add: Cons parse_one_def)
  next
    case False
    then have dd: "(s = ''--'') = (s ! 1 = CHR ''-'' \<and> length s = 2)"
      by (intro double_dash_iff) auto
    from False show ?thesis
      unfolding Cons parse_one_def flag_parse.simps(2) list.case Let_def sp dd
      by (simp split: option.split list.split)
  qed
qed

lemma parse_loop_step:
  "while_option (\<lambda>(r, _, _). r = One_seen) (\<lambda>(_, fs, args). parse_one fs args) (One_seen, fs, args) =
   while_option (\<lambda>(r, _, _). r = One_seen) (\<lambda>(_, fs, args). parse_one fs args) (parse_one fs args)"
  by (subst while_option_unfold) simp

lemma parse_loop_unfold:
  "parse_loop fs args =
     (case parse_one fs args of
        (One_seen, fs', args') \<Rightarrow> parse_loop fs' args'
      | r \<Rightarrow> Some r)"
proof -
  obtain r fs' args' where p: "parse_one fs args = (r, fs', args')" by (metis prod_cases3)
  show ?thesis
  proof (cases "r = One_seen")
    case True
    with p show ?thesis by (simp add: parse_loop_def parse_loop_step [of fs args])
  next
    case False
    with p show ?thesis
      by (cases r) (simp_all add: parse_loop_def parse_loop_step [of fs args] while_option_unfold)
  qed
qed

subsection \<open>The loop\<close>

text \<open>More calls allowed never change a result.\<close>

lemma parse_fuel_mono: "parse_fuel n fs args = Some r \<Longrightarrow> parse_fuel (n + k) fs args = Some r"
proof (induction n fs args rule: parse_fuel.induct)
  case (1 fs args)
  then show ?case by simp
next
  case (2 n fs args)
  then show ?case by (auto split: prod.splits one_result.splits)
qed



text \<open>
  C17. The loop of \<open>Parse\<close> over \<open>parseOne\<close> computes the same outcome as the
  structural recursion \<open>flag_parse\<close> on every flag set and command line: final
  values and arguments left over, the error message, or the request for help.
\<close>

theorem flag_parse_go_eq: "flag_parse_go fs args = Some (flag_parse fs args)"
proof (induction "length args" arbitrary: fs args rule: less_induct)
  case less
  obtain r fs' args' where p: "parse_one fs args = (r, fs', args')" by (metis prod_cases3)
  show ?case
  proof (cases "r = One_seen")
    case True
    with parse_one_shrinks [OF p] have "length args' < length args" by simp
    then have "flag_parse_go fs' args' = Some (flag_parse fs' args')" by (rule less)
    with True p show ?thesis
      by (simp add: flag_parse_go_def parse_loop_unfold [of fs args] parse_one_flag_parse [of fs args])
  next
    case False
    with p show ?thesis
      by (cases r) (simp_all add: flag_parse_go_def parse_loop_unfold [of fs args] parse_one_flag_parse [of fs args])
  qed
qed

text \<open>
  C22. \<open>flag.Parse\<close> finishes within one call of \<open>parseOne\<close> per argument plus
  one: with that many calls allowed the bounded loop already has its result, and it
  is the result of the loop.
\<close>

theorem parse_within_args:
  "\<exists>r. parse_fuel (Suc (length args)) fs args = Some r \<and> parse_loop fs args = Some r"
proof (induction "length args" arbitrary: fs args rule: less_induct)
  case less
  obtain r fs' args' where p: "parse_one fs args = (r, fs', args')" by (metis prod_cases3)
  show ?case
  proof (cases "r = One_seen")
    case True
    with parse_one_shrinks [OF p] have l: "Suc (length args') \<le> length args" by simp
    then have "length args' < length args" by simp
    from less [OF this] obtain r' where
      f: "parse_fuel (Suc (length args')) fs' args' = Some r'" and g: "parse_loop fs' args' = Some r'"
      by blast
    from l obtain k where k: "length args = Suc (length args') + k" using le_Suc_ex by blast
    have fk: "parse_fuel (Suc (length args') + k) fs' args' = Some r'"
      using f parse_fuel_mono by blast
    have "parse_fuel (Suc (length args)) fs args = parse_fuel (length args) fs' args'"
      using True p by simp
    also have "\<dots> = Some r'" using fk k by (simp only:)
    finally have "parse_fuel (Suc (length args)) fs args = Some r'" .
    moreover have "parse_loop fs args = Some r'" using True p g by (simp add: parse_loop_unfold [of fs args])
    ultimately show ?thesis by blast
  next
    case False
    with p show ?thesis by (cases r) (simp_all add: parse_loop_unfold [of fs args])
  qed
qed

end
