(* ===== verification/Flag_Usage.thy ===== *)
theory Flag_Usage
  imports Swissknife "HOL-Library.Char_ord" "HOL-Library.List_Lexorder"
begin

text \<open>
  The usage listing the \<open>flag\<close> package prints on standard error, for \<open>-h\<close>
  and after a command-line error (the \<open>Usage\<close> item of \<open>Process\<close>). The flags
  are the three \<open>flag.String\<close> calls of lines 50--53 of
  src/tools/cli/swissknife.go, now with their usage strings: \<open>flag_def\<close> is the
  library's \<open>Flag\<close> (name, usage, default), \<open>define_flag\<close> is \<open>FlagSet.Var\<close>
  registering one (\<open>None\<close> for the "flag redefined" panic). The printing is the
  library's, modelled from its source: the default \<open>Usage\<close> prints
  \<open>Usage of os.Args[0]:\<close> and \<open>PrintDefaults\<close>, which visits the flags in
  lexicographic order of their names (\<open>sort_key\<close> under \<open>List_Lexorder\<close>,
  the byte order Go compares strings in), extracts a back-quoted name from the
  usage (\<open>UnquoteUsage\<close>), and quotes a non-zero string default with \<open>%q\<close>.
  \<open>go_quote\<close> is \<open>strconv.Quote\<close> for ASCII; a byte from 0x80 up is copied, as
  Go copies the bytes of a printable non-ASCII rune (invalid UTF-8 and
  non-printable non-ASCII runes, which Go escapes, are outside the model; the
  program's only non-empty default is ASCII).
\<close>

subsection \<open>Flag definitions\<close>

definition backquote :: char where
  "backquote = CHR 0x60"

definition bslash :: char where
  "bslash = CHR 0x5C"

definition tab :: char where
  "tab = CHR 0x09"

record flag_def =
  flag_Name :: string
  flag_Usage :: go_string
  flag_DefValue :: go_string

definition define_flag :: "string \<Rightarrow> go_string \<Rightarrow> go_string \<Rightarrow> flag_def list \<Rightarrow> flag_def list option" where
  "define_flag name value usage defs =
     (if name \<in> flag_Name ` set defs then None
      else Some (defs @ [\<lparr>flag_Name = name, flag_Usage = usage, flag_DefValue = value\<rparr>]))"

definition swissknife_flag_defs :: "flag_def list option" where
  "swissknife_flag_defs =
     Option.bind (define_flag ''name'' [] ''spider name'' [])
       (\<lambda>defs. Option.bind (define_flag ''doc'' [] ''spider doc'' defs)
         (define_flag ''url'' ''www.example.com'' ''start url to scrape''))"

subsection \<open>Printing the defaults\<close>

text \<open>\<open>UnquoteUsage\<close> for a string flag.\<close>

definition unquote_usage :: "go_string \<Rightarrow> string \<times> go_string" where
  "unquote_usage usage =
     (case split_on [backquote] usage of
        None \<Rightarrow> (''string'', usage)
      | Some (a, r) \<Rightarrow>
          (case split_on [backquote] r of
             None \<Rightarrow> (''string'', usage)
           | Some (name, b) \<Rightarrow> (name, a @ name @ b)))"

definition hex_digit :: "nat \<Rightarrow> char" where
  "hex_digit n = (if n < 10 then char_of (48 + n) else char_of (87 + n))"

definition go_quote_char :: "char \<Rightarrow> go_string" where
  "go_quote_char c =
     (let n = of_char c :: nat in
      if c = dquote \<or> c = bslash then [bslash, c]
      else if 32 \<le> n \<and> n < 127 \<or> 128 \<le> n then [c]
      else if n = 7 then [bslash, CHR ''a'']
      else if n = 8 then [bslash, CHR ''b'']
      else if n = 12 then [bslash, CHR ''f'']
      else if n = 10 then [bslash, CHR ''n'']
      else if n = 13 then [bslash, CHR ''r'']
      else if n = 9 then [bslash, CHR ''t'']
      else if n = 11 then [bslash, CHR ''v'']
      else [bslash, CHR ''x'', hex_digit (n div 16), hex_digit (n mod 16)])"

definition go_quote :: "go_string \<Rightarrow> go_string" where
  "go_quote s = [dquote] @ concat (map go_quote_char s) @ [dquote]"

definition indent_newlines :: "go_string \<Rightarrow> go_string" where
  "indent_newlines s = concat (map (\<lambda>c. if c = CHR 0x0A then ''\<newline>    '' @ [tab] else [c]) s)"

definition print_flag :: "flag_def \<Rightarrow> go_string" where
  "print_flag fl =
     (let (name, usage) = unquote_usage (flag_Usage fl);
          head = ''  -'' @ flag_Name fl @ (if name = [] then [] else '' '' @ name)
      in head @ (if length head \<le> 4 then [tab] else ''\<newline>    '' @ [tab]) @ indent_newlines usage
         @ (if flag_DefValue fl = [] then [] else '' (default '' @ go_quote (flag_DefValue fl) @ '')'')
         @ ''\<newline>'')"

definition print_defaults :: "flag_def list \<Rightarrow> go_string" where
  "print_defaults defs = concat (map print_flag (sort_key flag_Name defs))"

definition usage_message :: "go_string \<Rightarrow> flag_def list \<Rightarrow> go_string" where
  "usage_message prog defs = ''Usage of '' @ prog @ '':\<newline>'' @ print_defaults defs"

text \<open>Standard error as bytes, the \<open>Usage\<close> item written out.\<close>

fun stderr_text :: "go_string \<Rightarrow> stderr_item list \<Rightarrow> go_string" where
  "stderr_text usage [] = []"
| "stderr_text usage (Err_text t # es) = t @ stderr_text usage es"
| "stderr_text usage (Usage # es) = usage @ stderr_text usage es"

text \<open>What \<open>PrintDefaults\<close> prints for the program\<close>

definition swissknife_defaults :: go_string where
  "swissknife_defaults =
     ''  -doc string\<newline>    '' @ [tab] @ ''spider doc\<newline>  -name string\<newline>    ''
     @ [tab] @ ''spider name\<newline>  -url string\<newline>    '' @ [tab] @ ''start url to scrape (default ''
     @ [dquote] @ ''www.example.com'' @ [dquote] @ '')\<newline>''"

subsection \<open>The listing of swissknife\<close>

lemma swissknife_flag_defs_eq:
  "swissknife_flag_defs = Some
     [\<lparr>flag_Name = ''name'', flag_Usage = ''spider name'', flag_DefValue = []\<rparr>,
      \<lparr>flag_Name = ''doc'', flag_Usage = ''spider doc'', flag_DefValue = []\<rparr>,
      \<lparr>flag_Name = ''url'', flag_Usage = ''start url to scrape'', flag_DefValue = ''www.example.com''\<rparr>]"
  by (simp add: swissknife_flag_defs_def define_flag_def)

lemma swissknife_print_defaults:
  "swissknife_flag_defs = Some defs \<Longrightarrow> print_defaults defs = swissknife_defaults"
proof -
  assume "swissknife_flag_defs = Some defs"
  then have d: "defs = [\<lparr>flag_Name = ''name'', flag_Usage = ''spider name'', flag_DefValue = []\<rparr>,
      \<lparr>flag_Name = ''doc'', flag_Usage = ''spider doc'', flag_DefValue = []\<rparr>,
      \<lparr>flag_Name = ''url'', flag_Usage = ''start url to scrape'', flag_DefValue = ''www.example.com''\<rparr>]"
    by (simp add: swissknife_flag_defs_eq)
  show ?thesis
    unfolding d print_defaults_def print_flag_def unquote_usage_def go_quote_def go_quote_char_def
      backquote_def tab_def dquote_def bslash_def indent_newlines_def swissknife_defaults_def
    by code_simp
qed

subsection \<open>Properties of the listing\<close>

text \<open>
  C18. What the program writes on standard error for \<open>-h\<close>: the usage line and
  the three flags in the order doc, name, url (not the order of definition), each
  with its usage, the default of \<open>-url\<close> quoted; for the undefined flag
  \<open>-type\<close> of the TODO at line 48, the error line and then the same listing.
\<close>

theorem main_help_text:
  "\<exists>defs. swissknife_flag_defs = Some defs \<and>
     stderr_text (usage_message prog defs) (stderr (main (''-h'' # args))) = (''Usage of '' @ prog @ '':\<newline>'' @ swissknife_defaults) \<and>
     stderr_text (usage_message prog defs) (stderr (main (''-type=ais'' # args))) =
       ''flag provided but not defined: -type\<newline>'' @ (''Usage of '' @ prog @ '':\<newline>'' @ swissknife_defaults)"
proof -
  obtain defs where d: "swissknife_flag_defs = Some defs" by (simp add: swissknife_flag_defs_eq)
  have "cli_defaults ''h'' = None" and "cli_defaults ''help'' = None"
    by (simp_all add: cli_defaults_def)
  then have h: "stderr (main (''-h'' # args)) = [Usage]"
    by (simp add: main_help [OF flag_parse_help(1)])
  have "flag_parse cli_defaults ((''-'' @ ''type'' @ ''='' @ ''ais'') # args) =
      Flags_failed (''flag provided but not defined: -'' @ ''type'')"
    by (rule flag_parse_undefined) (simp_all add: flag_name_ok_def cli_defaults_def)
  then have t: "stderr (main (''-type=ais'' # args)) = [Err_text (''flag provided but not defined: -type\<newline>''), Usage]"
    by (simp add: main_failed)
  show ?thesis
    using d h t swissknife_print_defaults [OF d] by (intro exI [of _ defs]) (simp add: usage_message_def)
qed

end
