(* ===== verification/Utf8.thy ===== *)
theory Utf8
  imports Prelude
begin

text \<open>
  UTF-8 decoding as Go's \<open>unicode/utf8.DecodeRuneInString\<close> does it, the first step
  of every iteration of \<open>htmlReplacer\<close> (see \<open>Html_Replacer\<close>). Bytes are read
  as \<open>nat\<close> (\<open>of_char\<close>); the masks \<open>s0 & mask2\<close>, \<open>s1 & maskx\<close> of the Go code
  are written out as \<open>mod 2^k\<close> and the shifts as multiplications, which is exact
  for byte values and runes below \<open>2^21\<close>. \<open>utf8_lead\<close> is the table \<open>first\<close>
  together with \<open>acceptRanges\<close>: for a leading byte, ASCII, invalid, or the size
  of the sequence and the range its second byte must lie in. A decoding error
  gives \<open>(RuneError, 1)\<close>, the empty string \<open>(RuneError, 0)\<close>.
\<close>

subsection \<open>The decoder\<close>

datatype lead =
    Lead_ascii              \<comment> \<open>\<open>as\<close>: a one-byte rune\<close>
  | Lead_invalid            \<comment> \<open>\<open>xx\<close>: never the first byte of a rune\<close>
  | Lead nat nat nat        \<comment> \<open>size, and \<open>acceptRange\<close> lo and hi of the second byte\<close>

definition utf8_lead :: "nat \<Rightarrow> lead" where
  "utf8_lead b =
     (if b < 0x80 then Lead_ascii
      else if b < 0xC2 then Lead_invalid
      else if b < 0xE0 then Lead 2 0x80 0xBF
      else if b = 0xE0 then Lead 3 0xA0 0xBF
      else if b < 0xED then Lead 3 0x80 0xBF
      else if b = 0xED then Lead 3 0x80 0x9F
      else if b < 0xF0 then Lead 3 0x80 0xBF
      else if b = 0xF0 then Lead 4 0x90 0xBF
      else if b < 0xF4 then Lead 4 0x80 0xBF
      else if b = 0xF4 then Lead 4 0x80 0x8F
      else Lead_invalid)"

definition rune_error :: nat where
  "rune_error = 0xFFFD"

definition utf8_decode :: "go_string \<Rightarrow> nat \<times> nat" where
  "utf8_decode s =
     (case s of
        [] \<Rightarrow> (rune_error, 0)
      | c0 # _ \<Rightarrow>
          (let s0 = of_char c0 in
           case utf8_lead s0 of
             Lead_ascii \<Rightarrow> (s0, 1)
           | Lead_invalid \<Rightarrow> (rune_error, 1)
           | Lead sz lo hi \<Rightarrow>
               (if length s < sz then (rune_error, 1)
                else
                  (let s1 = of_char (s ! 1) in
                   if s1 < lo \<or> hi < s1 then (rune_error, 1)
                   else if sz \<le> 2 then ((s0 mod 32) * 64 + s1 mod 64, 2)
                   else
                     (let s2 = of_char (s ! 2) in
                      if s2 < 0x80 \<or> 0xBF < s2 then (rune_error, 1)
                      else if sz \<le> 3 then ((s0 mod 16) * 4096 + (s1 mod 64) * 64 + s2 mod 64, 3)
                      else
                        (let s3 = of_char (s ! 3) in
                         if s3 < 0x80 \<or> 0xBF < s3 then (rune_error, 1)
                         else ((s0 mod 8) * 262144 + (s1 mod 64) * 4096 + (s2 mod 64) * 64 + s3 mod 64, 4)))))))"

text \<open>A Unicode scalar value: a code point that is not a surrogate.\<close>

definition scalar_value :: "nat \<Rightarrow> bool" where
  "scalar_value r \<longleftrightarrow> r \<le> 0x10FFFF \<and> \<not> (0xD800 \<le> r \<and> r \<le> 0xDFFF)"

subsection \<open>Arithmetic of the decoded bytes\<close>

lemma utf8_lead_Lead:
  "utf8_lead b = Lead sz lo hi \<Longrightarrow>
     2 \<le> sz \<and> sz \<le> 4 \<and> 0x80 \<le> lo \<and> hi \<le> 0xBF \<and> 0xC2 \<le> b \<and> b \<le> 0xF4"
  by (auto simp: utf8_lead_def split: if_splits)

lemma utf8_decode_size:
  "s \<noteq> [] \<Longrightarrow> utf8_decode s = (r, w) \<Longrightarrow> 1 \<le> w \<and> w \<le> 4 \<and> w \<le> length s"
  by (cases s) (auto simp: utf8_decode_def Let_def split: lead.splits if_splits dest!: utf8_lead_Lead simp: Suc_le_eq)


text \<open>A loop stepping through a string by decoded runes makes progress.\<close>

lemma utf8_decode_progress:
  "(r, w) = utf8_decode (drop i s) \<Longrightarrow> i < length s \<Longrightarrow> length s - (i + w) < length s - i"
proof -
  assume "(r, w) = utf8_decode (drop i s)" and i: "i < length s"
  then have "1 \<le> w" using utf8_decode_size [of "drop i s" r w] by simp
  with i show ?thesis by (intro diff_less_mono2) simp_all
qed

lemma mod_shift: "a < k \<Longrightarrow> (a + k * q) mod k = (a::nat)"
  by simp

lemma decode2_value:
  assumes "0xC2 \<le> s0" "s0 \<le> (0xDF::nat)" "0x80 \<le> s1" "s1 \<le> (0xBF::nat)"
  shows "0x80 \<le> (s0 mod 32) * 64 + s1 mod 64 \<and> (s0 mod 32) * 64 + s1 mod 64 \<le> 0x7FF"
proof -
  obtain a where a: "s0 = (2 + a) + 32 * 6" "a \<le> 29" using assms(1,2) le_Suc_ex [of 194 s0] by force
  obtain b where b: "s1 = b + 64 * 2" "b \<le> 63" using assms(3,4) le_Suc_ex [of 128 s1] by force
  have "s0 mod 32 = 2 + a" unfolding a(1) by (rule mod_shift) (use a(2) in simp)
  moreover have "s1 mod 64 = b" unfolding b(1) by (rule mod_shift) (use b(2) in simp)
  ultimately show ?thesis using a(2) b(2) by simp
qed
lemma decode3_value:
  assumes "0xE0 \<le> s0" "s0 \<le> (0xEF::nat)" "0x80 \<le> s1" "s1 \<le> (0xBF::nat)" "0x80 \<le> s2" "s2 \<le> (0xBF::nat)"
    and "s0 = 0xE0 \<Longrightarrow> 0xA0 \<le> s1" and "s0 = 0xED \<Longrightarrow> s1 \<le> 0x9F"
  shows "0x800 \<le> (s0 mod 16) * 4096 + (s1 mod 64) * 64 + s2 mod 64 \<and>
    (s0 mod 16) * 4096 + (s1 mod 64) * 64 + s2 mod 64 \<le> 0xFFFF \<and>
    \<not> (0xD800 \<le> (s0 mod 16) * 4096 + (s1 mod 64) * 64 + s2 mod 64 \<and>
         (s0 mod 16) * 4096 + (s1 mod 64) * 64 + s2 mod 64 \<le> 0xDFFF)"
proof -
  obtain a where a: "s0 = a + 16 * 14" "a \<le> 15" using assms(1,2) le_Suc_ex [of 224 s0] by force
  obtain b where b: "s1 = b + 64 * 2" "b \<le> 63" using assms(3,4) le_Suc_ex [of 128 s1] by force
  obtain c where c: "s2 = c + 64 * 2" "c \<le> 63" using assms(5,6) le_Suc_ex [of 128 s2] by force
  have m: "s0 mod 16 = a" "s1 mod 64 = b" "s2 mod 64 = c"
    unfolding a(1) b(1) c(1) by (rule mod_shift, use a(2) b(2) c(2) in simp)+
  have e0: "a = 0 \<Longrightarrow> 32 \<le> b" using assms(7) a(1) b(1) by simp
  have ed: "a = 13 \<Longrightarrow> b \<le> 31" using assms(8) a(1) b(1) by simp
  consider "a = 0" | "1 \<le> a \<and> a \<le> 12" | "a = 13" | "14 \<le> a" by linarith
  then show ?thesis
  proof cases
    case 1 with e0 b(2) c(2) show ?thesis unfolding m by simp
  next
    case 2 with b(2) c(2) show ?thesis unfolding m by simp
  next
    case 3 with ed b(2) c(2) show ?thesis unfolding m by simp
  next
    case 4 with a(2) b(2) c(2) show ?thesis unfolding m by simp
  qed
qed

lemma decode4_value:
  assumes "0xF0 \<le> s0" "s0 \<le> (0xF4::nat)" "0x80 \<le> s1" "s1 \<le> (0xBF::nat)" "0x80 \<le> s2" "s2 \<le> (0xBF::nat)"
    "0x80 \<le> s3" "s3 \<le> (0xBF::nat)"
    and "s0 = 0xF0 \<Longrightarrow> 0x90 \<le> s1" and "s0 = 0xF4 \<Longrightarrow> s1 \<le> 0x8F"
  shows "0x10000 \<le> (s0 mod 8) * 262144 + (s1 mod 64) * 4096 + (s2 mod 64) * 64 + s3 mod 64 \<and>
    (s0 mod 8) * 262144 + (s1 mod 64) * 4096 + (s2 mod 64) * 64 + s3 mod 64 \<le> 0x10FFFF"
proof -
  obtain a where a: "s0 = a + 8 * 30" "a \<le> 4" using assms(1,2) le_Suc_ex [of 240 s0] by force
  obtain b where b: "s1 = b + 64 * 2" "b \<le> 63" using assms(3,4) le_Suc_ex [of 128 s1] by force
  obtain c where c: "s2 = c + 64 * 2" "c \<le> 63" using assms(5,6) le_Suc_ex [of 128 s2] by force
  obtain d where d: "s3 = d + 64 * 2" "d \<le> 63" using assms(7,8) le_Suc_ex [of 128 s3] by force
  have m: "s0 mod 8 = a" "s1 mod 64 = b" "s2 mod 64 = c" "s3 mod 64 = d"
    unfolding a(1) b(1) c(1) d(1) by (rule mod_shift, use a(2) b(2) c(2) d(2) in simp)+
  have f0: "a = 0 \<Longrightarrow> 16 \<le> b" using assms(9) a(1) b(1) by simp
  have f4: "a = 4 \<Longrightarrow> b \<le> 15" using assms(10) a(1) b(1) by simp
  consider "a = 0" | "1 \<le> a \<and> a \<le> 3" | "a = 4" using a(2) by linarith
  then show ?thesis
  proof cases
    case 1 with f0 b(2) c(2) d(2) show ?thesis unfolding m by simp
  next
    case 2 with b(2) c(2) d(2) show ?thesis unfolding m by simp
  next
    case 3 with f4 b(2) c(2) d(2) show ?thesis unfolding m by simp
  qed
qed
subsection \<open>The decoded rune\<close>

lemma utf8_lead_cases:
  "utf8_lead b = Lead sz lo hi \<Longrightarrow>
     (sz = 2 \<and> lo = 0x80 \<and> hi = 0xBF \<and> 0xC2 \<le> b \<and> b \<le> 0xDF) \<or>
     (sz = 3 \<and> 0xE0 \<le> b \<and> b \<le> 0xEF \<and> lo = (if b = 0xE0 then 0xA0 else 0x80) \<and>
        hi = (if b = 0xED then 0x9F else 0xBF)) \<or>
     (sz = 4 \<and> 0xF0 \<le> b \<and> b \<le> 0xF4 \<and> lo = (if b = 0xF0 then 0x90 else 0x80) \<and>
        hi = (if b = 0xF4 then 0x8F else 0xBF))"
  by (auto simp: utf8_lead_def split: if_splits)

lemma utf8_decode_Lead:
  assumes "utf8_decode (c # t) = (r, w)" and "utf8_lead (of_char c) = Lead sz lo hi"
  shows "(r, w) = (rune_error, 1) \<or>
    (w = sz \<and> sz \<le> length (c # t) \<and> lo \<le> of_char (t ! 0) \<and> of_char (t ! 0) \<le> hi \<and>
     (sz = 2 \<longrightarrow> r = (of_char c mod 32) * 64 + of_char (t ! 0) mod 64) \<and>
     (3 \<le> sz \<longrightarrow> 0x80 \<le> (of_char (t ! 1) :: nat) \<and> of_char (t ! 1) \<le> (0xBF :: nat)) \<and>
     (sz = 3 \<longrightarrow> r = (of_char c mod 16) * 4096 + (of_char (t ! 0) mod 64) * 64 + of_char (t ! 1) mod 64) \<and>
     (sz = 4 \<longrightarrow> 0x80 \<le> (of_char (t ! 2) :: nat) \<and> of_char (t ! 2) \<le> (0xBF :: nat) \<and>
        r = (of_char c mod 8) * 262144 + (of_char (t ! 0) mod 64) * 4096 + (of_char (t ! 1) mod 64) * 64
          + of_char (t ! 2) mod 64))"
proof -
  from assms(2) have sz: "2 \<le> sz" "sz \<le> 4" by (auto dest: utf8_lead_Lead)
  show ?thesis
    using assms(1) sz unfolding utf8_decode_def list.case Let_def assms(2) lead.case
    by (auto split: if_splits)
qed

lemma take_Cons_nth_bound:
  assumes "\<forall>i < w - 1. P (t ! i)" and "P c"
  shows "\<forall>x \<in> set (take w (c # t)). P x"
proof
  fix x assume "x \<in> set (take w (c # t))"
  then obtain i where i: "i < length (take w (c # t))" "take w (c # t) ! i = x"
    by (auto simp: in_set_conv_nth)
  show "P x"
  proof (cases i)
    case 0
    with i assms(2) show ?thesis by (cases w) auto
  next
    case (Suc j)
    with i have "j < w - 1" and "x = t ! j" by auto
    with assms(1) show ?thesis by blast
  qed
qed

lemma utf8_decode_ascii: "of_char c < (128::nat) \<Longrightarrow> utf8_decode (c # t) = (of_char c, 1)"
  by (simp add: utf8_decode_def utf8_lead_def)

lemma rune_error_scalar: "scalar_value rune_error"
  by (simp add: scalar_value_def rune_error_def)

lemma utf8_decode_high:
  assumes dec: "utf8_decode (c # t) = (r, w)" and hi: "128 \<le> (of_char c :: nat)"
  shows "scalar_value r \<and> 128 \<le> r \<and> (w = 3 \<longrightarrow> 0x800 \<le> r) \<and> (w = 4 \<longrightarrow> 0x10000 \<le> r) \<and>
    (\<forall>x \<in> set (take w (c # t)). 128 \<le> (of_char x :: nat))"
proof (cases "utf8_lead (of_char c)")
  case Lead_ascii
  with hi show ?thesis by (simp add: utf8_lead_def split: if_splits)
next
  case Lead_invalid
  with dec have "(r, w) = (rune_error, 1)" by (simp add: utf8_decode_def)
  with hi show ?thesis by (simp add: rune_error_scalar) (simp add: rune_error_def)
next
  case (Lead sz lo hi')
  from utf8_decode_Lead [OF dec Lead] show ?thesis
  proof
    assume "(r, w) = (rune_error, 1)"
    with hi show ?thesis by (simp add: rune_error_scalar) (simp add: rune_error_def)
  next
    assume 2: "w = sz \<and> sz \<le> length (c # t) \<and> lo \<le> of_char (t ! 0) \<and> of_char (t ! 0) \<le> hi' \<and>
     (sz = 2 \<longrightarrow> r = (of_char c mod 32) * 64 + of_char (t ! 0) mod 64) \<and>
     (3 \<le> sz \<longrightarrow> 0x80 \<le> (of_char (t ! 1) :: nat) \<and> of_char (t ! 1) \<le> (0xBF :: nat)) \<and>
     (sz = 3 \<longrightarrow> r = (of_char c mod 16) * 4096 + (of_char (t ! 0) mod 64) * 64 + of_char (t ! 1) mod 64) \<and>
     (sz = 4 \<longrightarrow> 0x80 \<le> (of_char (t ! 2) :: nat) \<and> of_char (t ! 2) \<le> (0xBF :: nat) \<and>
        r = (of_char c mod 8) * 262144 + (of_char (t ! 0) mod 64) * 4096 + (of_char (t ! 1) mod 64) * 64
          + of_char (t ! 2) mod 64)"
    from utf8_lead_Lead [OF Lead] have lo: "0x80 \<le> lo" and hb: "hi' \<le> 0xBF" and sz4: "sz \<le> 4"
      by auto
    have w: "w = sz" using 2 by simp
    have s1: "lo \<le> of_char (t ! 0)" "of_char (t ! 0) \<le> hi'" using 2 by simp_all
    have s2: "3 \<le> sz \<Longrightarrow> 0x80 \<le> (of_char (t ! 1) :: nat) \<and> of_char (t ! 1) \<le> (0xBF :: nat)"
      using 2 by simp
    have s3: "sz = 4 \<Longrightarrow> 0x80 \<le> (of_char (t ! 2) :: nat) \<and> of_char (t ! 2) \<le> (0xBF :: nat)"
      using 2 by simp
    have r2: "sz = 2 \<Longrightarrow> r = (of_char c mod 32) * 64 + of_char (t ! 0) mod 64" using 2 by simp
    have r3: "sz = 3 \<Longrightarrow> r = (of_char c mod 16) * 4096 + (of_char (t ! 0) mod 64) * 64 + of_char (t ! 1) mod 64"
      using 2 by simp
    have r4: "sz = 4 \<Longrightarrow> r = (of_char c mod 8) * 262144 + (of_char (t ! 0) mod 64) * 4096
        + (of_char (t ! 1) mod 64) * 64 + of_char (t ! 2) mod 64"
      using 2 by simp
    have bytes: "\<forall>i < w - 1. 128 \<le> (of_char (t ! i) :: nat)"
    proof (intro allI impI)
      fix i assume "i < w - 1"
      with w sz4 have "i = 0 \<or> (i = 1 \<and> 3 \<le> sz) \<or> (i = 2 \<and> sz = 4)" by linarith
      with s1(1) lo s2 s3 show "128 \<le> (of_char (t ! i) :: nat)" by auto
    qed
    have take: "\<forall>x \<in> set (take w (c # t)). 128 \<le> (of_char x :: nat)"
      by (rule take_Cons_nth_bound [OF bytes hi])
    from utf8_lead_cases [OF Lead]
    have val: "scalar_value r \<and> 128 \<le> r \<and> (w = 3 \<longrightarrow> 0x800 \<le> r) \<and> (w = 4 \<longrightarrow> 0x10000 \<le> r)"
    proof (elim disjE conjE)
      assume "sz = 2" "lo = 0x80" "hi' = 0xBF" "0xC2 \<le> (of_char c :: nat)" "of_char c \<le> (0xDF :: nat)"
      with s1 decode2_value [of "of_char c" "of_char (t ! 0)"] show ?thesis
        by (simp add: r2 w scalar_value_def)
    next
      assume "sz = 3" "0xE0 \<le> (of_char c :: nat)" "of_char c \<le> (0xEF :: nat)"
        "lo = (if of_char c = (0xE0 :: nat) then 0xA0 else 0x80)" "hi' = (if of_char c = (0xED :: nat) then 0x9F else 0xBF)"
      with s1 s2 decode3_value [of "of_char c" "of_char (t ! 0)" "of_char (t ! 1)"]
      show ?thesis by (simp add: r3 w scalar_value_def split: if_splits)
    next
      assume "sz = 4" "0xF0 \<le> (of_char c :: nat)" "of_char c \<le> (0xF4 :: nat)"
        "lo = (if of_char c = (0xF0 :: nat) then 0x90 else 0x80)" "hi' = (if of_char c = (0xF4 :: nat) then 0x8F else 0xBF)"
      with s1 s2 s3 decode4_value [of "of_char c" "of_char (t ! 0)" "of_char (t ! 1)" "of_char (t ! 2)"]
      show ?thesis by (simp add: r4 w scalar_value_def split: if_splits)
    qed
    from val take show ?thesis by blast
  qed
qed

subsection \<open>Properties of the decoder\<close>

text \<open>
  C23. On a non-empty string the decoder consumes between one and four bytes, never
  more than there are, and returns a Unicode scalar value (at most \<open>0x10FFFF\<close>,
  never a surrogate), \<open>RuneError\<close> included.
\<close>

theorem utf8_decode_bounds:
  assumes "s \<noteq> []" and "utf8_decode s = (r, w)"
  shows "1 \<le> w \<and> w \<le> 4 \<and> w \<le> length s \<and> scalar_value r"
proof -
  obtain c t where s: "s = c # t" using assms(1) by (cases s) auto
  have "scalar_value r"
  proof (cases "of_char c < (128::nat)")
    case True
    with assms(2) s have "r = of_char c" by (simp add: utf8_decode_ascii)
    with True show ?thesis by (simp add: scalar_value_def)
  next
    case False
    with utf8_decode_high [of c t r w] assms(2) s show ?thesis by simp
  qed
  with utf8_decode_size [OF assms] show ?thesis by simp
qed

theorem utf8_decode_bounds_witness:
  "[CHR 0xEF, CHR 0xBF, CHR 0xBD] \<noteq> [] \<and> utf8_decode [CHR 0xEF, CHR 0xBF, CHR 0xBD] = (0xFFFD, 3) \<and>
   1 \<le> (3::nat) \<and> (3::nat) \<le> 4 \<and> (3::nat) \<le> length [CHR 0xEF, CHR 0xBF, CHR 0xBD] \<and> scalar_value 0xFFFD"
proof -
  have h1: "[CHR 0xEF, CHR 0xBF, CHR 0xBD] \<noteq> []" by simp
  have h2: "utf8_decode [CHR 0xEF, CHR 0xBF, CHR 0xBD] = (0xFFFD, 3)"
    by (simp add: utf8_decode_def utf8_lead_def)
  show ?thesis using h1 h2 utf8_decode_bounds [OF h1 h2] by simp
qed

text \<open>
  C24. The accept ranges rule out overlong encodings: a rune decoded from two bytes
  is at least \<open>0x80\<close>, from three at least \<open>0x800\<close>, from four at least
  \<open>0x10000\<close>; every shorter form is a decoding error of width one.
\<close>

theorem utf8_decode_shortest:
  assumes "utf8_decode s = (r, w)"
  shows "(w = 2 \<longrightarrow> 0x80 \<le> r) \<and> (w = 3 \<longrightarrow> 0x800 \<le> r) \<and> (w = 4 \<longrightarrow> 0x10000 \<le> r)"
proof (cases s)
  case Nil
  with assms show ?thesis by (simp add: utf8_decode_def)
next
  case (Cons c t)
  show ?thesis
  proof (cases "of_char c < (128::nat)")
    case True
    with assms Cons show ?thesis by (simp add: utf8_decode_ascii)
  next
    case False
    with utf8_decode_high [of c t r w] assms Cons show ?thesis by simp
  qed
qed

theorem utf8_decode_shortest_witness:
  "utf8_decode [CHR 0xC3, CHR 0xA9] = (0xE9, 2) \<and> 0x80 \<le> (0xE9::nat)"
proof -
  have h: "utf8_decode [CHR 0xC3, CHR 0xA9] = (0xE9, 2)" by (simp add: utf8_decode_def utf8_lead_def)
  show ?thesis using h utf8_decode_shortest [OF h] by simp
qed

end
