(* ===== verification/Html_Replacer.thy ===== *)
theory Html_Replacer
  imports Html_Escape Utf8
begin

text \<open>
  The escaper as \<open>html/template\<close> writes it: \<open>htmlEscaper\<close> calls
  \<open>htmlReplacer(s, htmlReplacementTable, true)\<close>, a loop over the runes of
  \<open>s\<close> (decoded with \<open>utf8.DecodeRuneInString\<close>, \<open>Utf8\<close>) that copies the
  text between replacements from \<open>s[written:i]\<close> into a builder and returns
  \<open>s\<close> itself when nothing was replaced. \<open>html_replacement r\<close> is
  \<open>replacementTable[r]\<close> guarded by \<open>int(r) < len(replacementTable)\<close> (63
  entries, up to \<open>'>'\<close>; the empty string where the table has no entry). With
  \<open>badRunes = true\<close> the branch for runes beyond the table does nothing. The loop
  is a \<open>function\<close> on \<open>(s, i, written, b)\<close>, terminating because every rune
  decoded from a non-empty string has width at least one. The main lemma shows
  that it computes the byte-wise \<open>html_escape\<close> the rest of the development uses.
\<close>

subsection \<open>The loop\<close>

definition html_replacement :: "nat \<Rightarrow> go_string" where
  "html_replacement r =
     (if r < 63 then (case map_of html_replacement_table (char_of r) of Some x \<Rightarrow> x | None \<Rightarrow> []) else [])"

function html_replacer_loop :: "go_string \<Rightarrow> nat \<Rightarrow> nat \<Rightarrow> go_string \<Rightarrow> go_string" where
  "html_replacer_loop s i written b =
     (if i < length s then
        (case utf8_decode (drop i s) of
           (r, w) \<Rightarrow>
             if html_replacement r \<noteq> [] then
               html_replacer_loop s (i + w) (i + w) (b @ take (i - written) (drop written s) @ html_replacement r)
             else html_replacer_loop s (i + w) written b)
      else if written = 0 then s
      else b @ drop written s)"
  by pat_completeness auto
termination
  by (relation "measure (\<lambda>(s, i, _, _). length s - i)") (auto intro: utf8_decode_progress)

definition html_replacer :: "go_string \<Rightarrow> go_string" where
  "html_replacer s = html_replacer_loop s 0 0 []"

subsection \<open>One iteration\<close>

lemma html_special_ascii: "c \<in> html_special \<Longrightarrow> of_char c < (63::nat)"
  by (auto simp: html_special_iff nul_def dquote_def squote_def)

lemma html_replacement_char:
  "html_replacement (of_char c) = (case map_of html_replacement_table c of Some x \<Rightarrow> x | None \<Rightarrow> [])"
proof (cases "of_char c < (63::nat)")
  case True
  then show ?thesis by (simp add: html_replacement_def)
next
  case False
  then have "c \<notin> html_special" using html_special_ascii by force
  then have "map_of html_replacement_table c = None"
    by (simp add: html_special_def map_of_eq_None_iff)
  with False show ?thesis by (simp add: html_replacement_def)
qed

lemma html_replacement_high: "128 \<le> r \<Longrightarrow> html_replacement r = []"
  by (simp add: html_replacement_def)

lemma html_escape_char_replacement:
  "html_replacement (of_char c) \<noteq> [] \<Longrightarrow> html_escape_char c = html_replacement (of_char c)"
  by (simp add: html_replacement_char html_escape_char_def split: option.splits)

lemma html_escape_char_no_replacement:
  "html_replacement (of_char c) = [] \<Longrightarrow> html_escape_char c = [c]"
  using html_escape_char_nonempty [of c]
  by (auto simp: html_replacement_char html_escape_char_def split: option.splits)

lemma html_escape_high:
  "\<forall>x \<in> set t. 128 \<le> (of_char x :: nat) \<Longrightarrow> html_escape t = t"
  by (rule html_escape_plain) (force dest: html_special_ascii)

lemma replacer_step:
  assumes "i < length s" and "utf8_decode (drop i s) = (r, w)"
  shows "i + w \<le> length s \<and> 1 \<le> w \<and>
    (html_replacement r \<noteq> [] \<longrightarrow> w = 1 \<and> html_escape (take w (drop i s)) = html_replacement r) \<and>
    (html_replacement r = [] \<longrightarrow> html_escape (take w (drop i s)) = take w (drop i s))"
proof -
  obtain c t where ct: "drop i s = c # t" using assms(1) by (cases "drop i s") auto
  from utf8_decode_size [of "drop i s" r w] assms ct have sz: "1 \<le> w" "w \<le> length (drop i s)" by auto
  then have len: "i + w \<le> length s" using assms(1) by simp
  show ?thesis
  proof (cases "of_char c < (128::nat)")
    case True
    with assms(2) ct have rw: "r = of_char c" "w = 1" by (simp_all add: utf8_decode_ascii)
    have "take w (drop i s) = [c]" using rw ct by simp
    then show ?thesis
      using assms(1) sz rw ct html_escape_char_replacement [of c] html_escape_char_no_replacement [of c]
      by (cases "html_replacement (of_char c) = []") simp_all
  next
    case False
    with utf8_decode_high [of c t r w] assms(2) ct
    have "128 \<le> r" and "\<forall>x \<in> set (take w (c # t)). 128 \<le> (of_char x :: nat)" by auto
    then show ?thesis using sz len ct html_replacement_high html_escape_high by auto
  qed
qed

subsection \<open>The loop computes the byte-wise escaper\<close>

lemma html_replacer_loop_inv:
  "written \<le> i \<Longrightarrow> i \<le> length s \<Longrightarrow> b @ take (i - written) (drop written s) = html_escape (take i s) \<Longrightarrow>
   (written = 0 \<longrightarrow> b = []) \<Longrightarrow> html_replacer_loop s i written b = html_escape s"
proof (induction s i written b rule: html_replacer_loop.induct)
  case (1 s i written b)
  show ?case
  proof (cases "i < length s")
    case False
    with "1.prems" have i: "i = length s" by simp
    show ?thesis
    proof (cases "written = 0")
      case True
      with "1.prems" i show ?thesis by (simp add: html_replacer_loop.simps [of s i])
    next
      case False
      with "1.prems" i show ?thesis by (simp add: html_replacer_loop.simps [of s i])
    qed
  next
    case True
    obtain r w where d: "utf8_decode (drop i s) = (r, w)" by fastforce
    note st = replacer_step [OF True d]
    have split: "html_escape (take (i + w) s) = html_escape (take i s) @ html_escape (take w (drop i s))"
      by (simp add: take_add)
    show ?thesis
    proof (cases "html_replacement r \<noteq> []")
      case rep: True
      from st rep have w1: "w = 1" and e: "html_escape (take w (drop i s)) = html_replacement r" by blast+
      have "html_replacer_loop s (i + w) (i + w) (b @ take (i - written) (drop written s) @ html_replacement r)
          = html_escape s"
      proof (rule "1.IH"(1) [OF True d [symmetric] rep])
        show "i + w \<le> i + w" by simp
        show "i + w \<le> length s" using st by simp
        show "(b @ take (i - written) (drop written s) @ html_replacement r) @ take (i + w - (i + w)) (drop (i + w) s)
            = html_escape (take (i + w) s)"
          using split w1 e "1.prems"(3) by simp
        show "i + w = 0 \<longrightarrow> b @ take (i - written) (drop written s) @ html_replacement r = []"
          using st by simp
      qed
      with True d rep show ?thesis by (simp add: html_replacer_loop.simps [of s i])
    next
      case norep: False
      have "html_replacer_loop s (i + w) written b = html_escape s"
      proof (rule "1.IH"(2) [OF True d [symmetric] norep])
        show "written \<le> i + w" using "1.prems"(1) by simp
        show "i + w \<le> length s" using st by simp
        have "take (i + w - written) (drop written s) = take (i - written) (drop written s) @ take w (drop i s)"
        proof -
          have e1: "i + w - written = (i - written) + w" using "1.prems"(1) by simp
          have e2: "drop (i - written) (drop written s) = drop i s"
            using "1.prems"(1) by (simp add: drop_drop)
          show ?thesis unfolding e1 take_add e2 ..
        qed
        then show "b @ take (i + w - written) (drop written s) = html_escape (take (i + w) s)"
          using split st norep "1.prems"(3) by simp
        show "written = 0 \<longrightarrow> b = []" using "1.prems"(4) .
      qed
      with True d norep show ?thesis by (simp add: html_replacer_loop.simps [of s i])
    qed
  qed
qed

text \<open>
  C25. Go's rune-wise \<open>htmlReplacer\<close> loop, with its \<open>written\<close> index, its
  builder and its early return of the unchanged string, computes exactly the
  byte-wise replacement \<open>html_escape\<close> on every byte string, valid UTF-8 or not.
\<close>

theorem html_replacer_eq: "html_replacer s = html_escape s"
  unfolding html_replacer_def by (rule html_replacer_loop_inv) simp_all

end
