(* ===== verification/Spec2Isabelle.thy ===== *)
theory Spec2Isabelle
  imports Swissknife Go_Flag_Loop Flag_Usage Html_Replacer
begin

text \<open>
  \<^bold>\<open>A verified model of swissknife, the spider-boilerplate generator.\<close>

  The repository is one Go program, src/tools/cli/swissknife.go. Its \<open>main\<close>
  reads three string flags with Go's \<open>flag\<close> package (\<open>-name\<close>, \<open>-doc\<close>,
  \<open>-url\<close>, default \<open>www.example.com\<close>), stops with status 1 when the name is
  empty, fills a \<open>Spider\<close> struct, parses the fixed template \<open>spiderTemplate\<close>
  with \<open>html/template\<close> and executes it into standard output. The parts and the
  theories that model them, in the order the code composes them:
  \<^item> \<open>Prelude\<close>: the string type (a Go string is a byte sequence, an Isabelle
    \<open>string\<close> a list of 8-bit \<open>char\<close>s), the quote characters, and
    \<open>split_on\<close>, the first-occurrence search both the template lexer and the
    flag parser rely on, with its lemmas (what it finds, that nothing earlier
    matches, that it finds the first occurrence).
  \<^item> \<open>Spider\<close>: the struct \<open>Spider\<close> (lines 42--46) as a record, and the
    reflective field lookup \<open>spider_field\<close> the template engine performs.
  \<^item> \<open>Html_Escape\<close>: the escaper \<open>html/template\<close> applies to every action in
    the HTML text context (\<open>htmlEscaper\<close>, library code modelled from its
    behaviour): \<open>html_escape\<close>, the table \<open>html_replacement_table\<close>, and the
    decoder \<open>html_unescape\<close> used to state what escaping preserves.
  \<^item> \<open>Utf8\<close> and \<open>Html_Replacer\<close>: the same escaper as Go writes it,
    \<open>htmlReplacer\<close> (\<open>html_replacer_loop\<close>, \<open>html_replacer\<close>) looping over
    the runes that \<open>utf8.DecodeRuneInString\<close> (\<open>utf8_decode\<close>, with the
    tables \<open>first\<close> and \<open>acceptRanges\<close> as \<open>utf8_lead\<close>) finds; proved equal
    to \<open>html_escape\<close>, so the byte-wise model used by \<open>execute\<close> is exact.
  \<^item> \<open>Go_Template\<close>: the template engine for the fragment the program uses
    (text and \<open>{{ .Field }}\<close> actions): \<open>parse_template\<close> (Parse, line 71;
    a \<open>function\<close> whose termination is proved by the measure \<open>length\<close>),
    \<open>execute\<close> (Execute, line 76; it stops at the first error and keeps the
    output written so far), the constant \<open>spiderTemplate\<close> (lines 19--38)
    character for character, its parse \<open>spider_pieces\<close>, and \<open>render_spec\<close>,
    the spec's contract for the renderer as plain string interpolation.
  \<^item> \<open>Go_Flag\<close>: the \<open>flag\<close> package (lines 50--57): \<open>flag_string\<close>
    (flag.String), \<open>flag_parse\<close> (flag.Parse under ExitOnError: the
    \<open>parseOne\<close> loop as structural recursion on the argument list).
  \<^item> \<open>Go_Flag_Loop\<close>: \<open>flag.Parse\<close> as the library writes it, \<open>parse_one\<close>
    (parseOne) iterated by \<open>while_option\<close> (\<open>parse_loop\<close>,
    \<open>flag_parse_go\<close>); it stops on every input and equals \<open>flag_parse\<close>,
    so everything proved of \<open>main\<close> with \<open>flag_parse\<close> holds of the loop.
  \<^item> \<open>Flag_Usage\<close>: the usage listing the flag package prints for \<open>-h\<close> and
    after an error: the flag registry with usage strings (\<open>flag_def\<close>,
    \<open>define_flag\<close>, \<open>swissknife_flag_defs\<close> for lines 50--53),
    \<open>PrintDefaults\<close> (\<open>print_defaults\<close>, flags sorted by name),
    \<open>UnquoteUsage\<close>, \<open>%q\<close> (\<open>go_quote\<close>), and \<open>stderr_text\<close>, which writes
    out the \<open>Usage\<close> item of standard error.
  \<^item> \<open>Process\<close>: the process as explicit state (\<open>world\<close>: standard output,
    standard error, exit status) and its effects as a datatype of operations
    \<open>io_op\<close> with the step function \<open>io_step\<close>; \<open>os.Exit\<close> and \<open>panic\<close>
    stop the process and every later operation is then without effect, which is
    how the code after \<open>os.Exit(1)\<close> (line 61) is modelled.
  \<^item> \<open>Swissknife\<close>: \<open>main\<close> (lines 49--79) composed from the above:
    \<open>swissknife_flags\<close>, \<open>main_flags_parsed\<close> (lines 59--79),
    \<open>run_template\<close> (lines 70--78) and \<open>main\<close>, with the lemma
    \<open>main_cases\<close> listing every way the program ends.

  What is proved. The properties are numbered C1--C32 where they are stated.
  End to end (this theory): for every name, doc and url, the output is the
  template with the HTML-escaped values (C1); standard output holds either no
  quote character or exactly the template's six double and two single quotes,
  so no input closes the docstring or the \<open>name\<close> literal (C7); the
  \<open>start_urls\<close> entry is never a quoted string (C8, a defect of the
  template); omitting \<open>-url\<close> or \<open>-doc\<close> (C9); the output holds the
  placeholder marker \<open>{{\<close> exactly when a value does (C15, via \<open>weave\<close>:
  the template's texts hold no \<open>{\<close> and the escaper copies it); the output
  length is 182 fixed bytes plus between one and five times the values (C21);
  no markup character \<open><\<close>, \<open>>\<close>, \<open>+\<close> or NUL ever reaches standard output
  (C27); and decoding the output as HTML gives the spec's verbatim rendering for
  values without NUL (C28). Of \<open>main\<close>: the empty-name path (C2), that no
  command line panics (C3, which needs the parse of the fixed template), an
  undefined flag (C12), the help flags (C14), that every argument after the
  first positional word is ignored (C26), the error paths of a trailing flag
  without value (C29) and of malformed flags (C30), and that it never writes
  to both streams (C31). Of the renderer: execution equals the spec's verbatim
  substitution exactly when no value holds an HTML-special character (C4);
  parsing inverts printing on every well-formed piece list (C16,
  \<open>print_template\<close> and \<open>wf_pieces\<close>); every parse is well typed (C19,
  \<open>lexed_pieces\<close>); the spec's own placeholder syntax \<open>{{Name}}\<close> makes
  \<open>Parse\<close> fail with "function not defined", since a bare name is a call of a
  function and the program's \<open>FuncMap\<close> is empty (C20, \<open>parse_action\<close>
  with \<open>go_template_keywords\<close> and \<open>go_builtin_funcs\<close>); and execution
  fails exactly at the first unknown field, having written the output of the
  pieces before it (C32). Of the escaper: it is the identity exactly on values
  without NUL, \<open>"\<close>, \<open>&\<close>, \<open>'\<close>, \<open>+\<close>, \<open><\<close> and \<open>>\<close> (C5), decoding
  undoes it on NUL-free values (C6), and Go's rune-wise loop equals it on every
  byte string (C25); of its UTF-8 decoder, that it consumes one to four bytes
  and yields a Unicode scalar value (C23) and never accepts an overlong
  encoding (C24). Of the flag parser: the encode/parse roundtrip with
  last-setting-wins (C10), the invariant that parsing keeps the set of defined
  flags (C11), and the agreement of the flag spellings (C13); Go's loop over
  \<open>parseOne\<close> stops within one call per argument plus one (C22, the bounded
  loop \<open>parse_fuel\<close>) and computes \<open>flag_parse\<close> (C17). Of the usage
  listing: the exact text for \<open>-h\<close> and for the undefined \<open>-type\<close> (C18).
  The process model \<open>io_step\<close> makes \<open>os.Exit\<close> and \<open>panic\<close> final, which
  the lemmas of \<open>Process\<close> record and the proofs about \<open>main\<close> use.

  Bounds and termination. Every function of the model is total: the recursions
  are structural, except \<open>parse_template\<close>, whose argument shrinks by at
  least the four delimiter characters per action, and the \<open>while_option\<close>
  loop of \<open>Parse\<close>, proved to return \<open>Some\<close> within the fuel
  \<open>parse_fuel\<close>, the number of arguments plus one (C22), and the rune loop
  of \<open>htmlReplacer\<close>, whose index grows by the decoded width, at least one.
  No other fuel is needed, and every result above is proved for all inputs.

  Not modelled. Standard error holds the marker \<open>Usage\<close>, written out by
  \<open>stderr_text\<close> with the program name \<open>os.Args[0]\<close> as a parameter;
  \<open>%q\<close> is modelled for ASCII defaults only (the program's one non-empty
  default is ASCII): for other runes \<open>strconv.Quote\<close> consults the Unicode
  tables of \<open>unicode.IsPrint\<close>, which are not modelled, so the usage listing
  stays partly modelled; the TODO features of lines 48, 52 and 55 (\<open>-type ais\<close>,
  several URLs, sub-commands) are not code and have no model; a panic's goroutine trace is not modelled; template
  actions other than a field reference or a bare function name are reported as
  unsupported (Go accepts some of them, such as calls of the builtins), which
  does not affect the fixed template; the
  escaping contexts of \<open>html/template\<close> other than HTML text (attributes,
  scripts, URLs) do not occur in the template and are not modelled; writing to standard output is assumed
  not to fail. The lines of src/tools/cli/swissknife.go outside the map are the
  package comment, the package clause and the imports, which hold no behaviour.
\<close>

subsection \<open>Quote characters in the output\<close>

lemma count_quotes_escaped [simp]:
  "count_list (html_escape s) dquote = 0" "count_list (html_escape s) squote = 0"
  by simp_all

lemma count_quotes_render:
  "count_list (render_spec (html_escape n) (html_escape d) (html_escape u)) dquote = 6"
  "count_list (render_spec (html_escape n) (html_escape d) (html_escape u)) squote = 2"
proof -
  show "count_list (render_spec (html_escape n) (html_escape d) (html_escape u)) dquote = 6"
    unfolding render_spec_def triple_quote_def
    by (simp only: count_list_append count_quotes_escaped) (simp add: dquote_def squote_def)
  show "count_list (render_spec (html_escape n) (html_escape d) (html_escape u)) squote = 2"
    unfolding render_spec_def triple_quote_def
    by (simp only: count_list_append count_quotes_escaped) (simp add: dquote_def squote_def)
qed

subsection \<open>End-to-end properties of the program\<close>

text \<open>
  C7. Whatever the command line, standard output holds either no quote
  character at all or exactly the template's own, together: six double quotes (the two
  docstring delimiters) and two single quotes (around \<open>name\<close>). User input can
  never end the docstring or the \<open>name\<close> string literal early.
\<close>

theorem output_quote_counts:
  "(count_list (stdout (main args)) dquote = 0 \<and> count_list (stdout (main args)) squote = 0) \<or>
   (count_list (stdout (main args)) dquote = 6 \<and> count_list (stdout (main args)) squote = 2)"
proof (cases args rule: main_cases)
  case (render fs rest)
  then show ?thesis by (simp add: count_quotes_render)
next
  case no_name
  then show ?thesis by (simp add: name_error_def dquote_def squote_def)
qed simp_all

text \<open>
  C1. For every non-empty name and every doc and url given as flags, main exits
  0 and writes the template with the three values HTML-escaped at their five
  positions.
\<close>

theorem main_renders_values:
  assumes "n \<noteq> []"
  shows "main [''-name='' @ n, ''-doc='' @ d, ''-url='' @ u] =
    \<lparr>stdout = render_spec (html_escape n) (html_escape d) (html_escape u), stderr = [], status = Exited 0\<rparr>"
  using main_parsed [OF flag_parse_cli_all [of n d u]] main_flags_parsed_render [of _] assms
  by (simp add: flag_value_def)

theorem main_renders_values_witness:
  "''Marine+Traffic'' \<noteq> [] \<and>
   main [''-name='' @ ''Marine+Traffic'', ''-doc='' @ ''a <b>'', ''-url='' @ ''x&y''] =
    \<lparr>stdout = render_spec (html_escape ''Marine+Traffic'') (html_escape ''a <b>'') (html_escape ''x&y''),
     stderr = [], status = Exited 0\<rparr>"
proof -
  have h: "''Marine+Traffic'' \<noteq> []" by simp
  show ?thesis by (rule conjI [OF h main_renders_values [OF h]])
qed

text \<open>
  C8. The template writes the URL bare inside \<open>start_urls = [ ... ]\<close>, so the
  generated Python list never holds a string literal; quoting the URL on the
  command line does not help either, since the escaper replaces every quote.
\<close>

theorem start_urls_unquoted:
  assumes "flag_parse cli_defaults args = Flags_parsed fs rest" and "flag_value fs ''name'' \<noteq> []"
  shows "\<exists>n d u. stdout (main args) = render_spec n d u \<and> u = html_escape (flag_value fs ''url'') \<and>
           dquote \<notin> set u \<and> squote \<notin> set u"
  using main_parsed [OF assms(1)] main_flags_parsed_render [OF assms(2)] by simp blast

theorem start_urls_unquoted_witness:
  "flag_parse cli_defaults [''-name='' @ ''A'', ''-doc='' @ ''b'', ''-url='' @ ''www.mt.com''] =
     Flags_parsed (cli_defaults(''name'' \<mapsto> ''A'', ''doc'' \<mapsto> ''b'', ''url'' \<mapsto> ''www.mt.com'')) [] \<and>
   flag_value (cli_defaults(''name'' \<mapsto> ''A'', ''doc'' \<mapsto> ''b'', ''url'' \<mapsto> ''www.mt.com'')) ''name'' \<noteq> [] \<and>
   (\<exists>n d u. stdout (main [''-name='' @ ''A'', ''-doc='' @ ''b'', ''-url='' @ ''www.mt.com'']) = render_spec n d u \<and>
      u = html_escape (flag_value (cli_defaults(''name'' \<mapsto> ''A'', ''doc'' \<mapsto> ''b'', ''url'' \<mapsto> ''www.mt.com'')) ''url'') \<and>
      dquote \<notin> set u \<and> squote \<notin> set u)"
proof -
  note h1 = flag_parse_cli_all [of "''A''" "''b''" "''www.mt.com''"]
  have h2: "flag_value (cli_defaults(''name'' \<mapsto> ''A'', ''doc'' \<mapsto> ''b'', ''url'' \<mapsto> ''www.mt.com'')) ''name'' \<noteq> []"
    by (simp add: flag_value_def)
  show ?thesis using h1 h2 start_urls_unquoted [OF h1 h2] by blast
qed

text \<open>
  C9. Omitting \<open>-url\<close> renders the default \<open>www.example.com\<close>; omitting
  \<open>-doc\<close> leaves the docstring's description empty.
\<close>

theorem main_default_url:
  assumes "n \<noteq> []"
  shows "main [''-name='' @ n] =
      \<lparr>stdout = render_spec (html_escape n) [] ''www.example.com'', stderr = [], status = Exited 0\<rparr> \<and>
    main [''-name='' @ n, ''-doc='' @ d] =
      \<lparr>stdout = render_spec (html_escape n) (html_escape d) ''www.example.com'', stderr = [], status = Exited 0\<rparr>"
proof -
  have url: "html_escape ''www.example.com'' = ''www.example.com''"
    by (rule html_escape_plain) (simp add: html_special_iff nul_def dquote_def squote_def)
  show ?thesis
    using main_parsed [OF flag_parse_cli_name [of n]] main_parsed [OF flag_parse_cli_name_doc [of n d]]
      main_flags_parsed_render assms url
    by (simp add: flag_value_def cli_defaults_def)
qed

theorem main_default_url_witness:
  "''X'' \<noteq> [] \<and>
   main [''-name='' @ ''X''] =
      \<lparr>stdout = render_spec (html_escape ''X'') [] ''www.example.com'', stderr = [], status = Exited 0\<rparr> \<and>
   main [''-name='' @ ''X'', ''-doc='' @ ''y''] =
      \<lparr>stdout = render_spec (html_escape ''X'') (html_escape ''y'') ''www.example.com'', stderr = [], status = Exited 0\<rparr>"
proof -
  have h: "''X'' \<noteq> []" by simp
  show ?thesis by (rule conjI [OF h main_default_url [OF h]])
qed

text \<open>
  C15. The spec says the output never contains a placeholder marker. The fixed
  template's own markers are all replaced, but the escaper leaves \<open>{\<close> alone:
  standard output contains \<open>{{\<close> exactly when main renders and one of the
  three values contains \<open>{{\<close>.
\<close>

theorem output_placeholder_iff:
  "sublist ''{{'' (stdout (main args)) \<longleftrightarrow>
   (\<exists>fs rest. flag_parse cli_defaults args = Flags_parsed fs rest \<and> flag_value fs ''name'' \<noteq> [] \<and>
      (sublist ''{{'' (flag_value fs ''name'') \<or> sublist ''{{'' (flag_value fs ''doc'') \<or>
       sublist ''{{'' (flag_value fs ''url'')))"
proof -
  have br: "''{{'' = [lbrace, lbrace]" by (simp add: lbrace_def)
  show ?thesis
  proof (cases "flag_parse cli_defaults args")
    case (Flags_parsed fs rest)
    show ?thesis
    proof (cases "flag_value fs ''name'' = []")
      case True
      have "\<not> sublist ''{{'' name_error" unfolding name_error_def by code_simp
      with True Flags_parsed show ?thesis
        by (simp add: main_parsed main_flags_parsed_empty)
    next
      case False
      with Flags_parsed show ?thesis
        unfolding br
        by (simp add: main_parsed main_flags_parsed_render render_spec_brace_pair html_escape_brace_pair)
    qed
  next
    case (Flags_failed msg)
    then show ?thesis by (simp add: main_failed)
  next
    case Flags_help
    then show ?thesis by (simp add: main_help)
  qed
qed

theorem output_placeholder_iff_witness:
  "sublist ''{{'' (stdout (main [''-name=a{{b''])) \<and>
   (\<exists>fs rest. flag_parse cli_defaults [''-name=a{{b''] = Flags_parsed fs rest \<and> flag_value fs ''name'' \<noteq> [] \<and>
      (sublist ''{{'' (flag_value fs ''name'') \<or> sublist ''{{'' (flag_value fs ''doc'') \<or>
       sublist ''{{'' (flag_value fs ''url'')))"
proof -
  let ?fs = "cli_defaults(''name'' \<mapsto> ''a{{b'')"
  have p: "flag_parse cli_defaults [''-name=a{{b''] = Flags_parsed ?fs []"
    using flag_parse_cli_name [of "''a{{b''"] by (simp only: append_Cons append_Nil)
  have v: "flag_value ?fs ''name'' = ''a{{b''" by (simp add: flag_value_def)
  have s: "sublist ''{{'' ''a{{b''" by code_simp
  have r: "\<exists>fs rest. flag_parse cli_defaults [''-name=a{{b''] = Flags_parsed fs rest \<and> flag_value fs ''name'' \<noteq> [] \<and>
      (sublist ''{{'' (flag_value fs ''name'') \<or> sublist ''{{'' (flag_value fs ''doc'') \<or>
       sublist ''{{'' (flag_value fs ''url''))"
  proof (intro exI conjI)
    show "flag_parse cli_defaults [''-name=a{{b''] = Flags_parsed ?fs []" by (rule p)
    show "flag_value ?fs ''name'' \<noteq> []" using v by simp
    show "sublist ''{{'' (flag_value ?fs ''name'') \<or> sublist ''{{'' (flag_value ?fs ''doc'') \<or>
       sublist ''{{'' (flag_value ?fs ''url'')" using v s by simp
  qed
  with output_placeholder_iff [of "[''-name=a{{b'']"] show ?thesis by blast
qed


text \<open>
  C21. The size of the output: when main renders, standard output is the 182
  bytes of the template's fixed text plus the five values, each escaped value at
  least as long as the value and at most five times as long (\<open>&#34;\<close> and its
  kin are five bytes).
\<close>

theorem main_output_length:
  assumes "flag_parse cli_defaults args = Flags_parsed fs rest" and "flag_value fs ''name'' \<noteq> []"
  shows "182 + (3 * length (flag_value fs ''name'') + length (flag_value fs ''doc'') + length (flag_value fs ''url''))
           \<le> length (stdout (main args)) \<and>
         length (stdout (main args))
           \<le> 182 + 5 * (3 * length (flag_value fs ''name'') + length (flag_value fs ''doc'') + length (flag_value fs ''url''))"
proof -
  have l0: "length (render_spec [] [] []) = 182" by (simp add: render_spec_def triple_quote_def)
  have out: "length (stdout (main args)) = 182 + 3 * length (html_escape (flag_value fs ''name''))
      + length (html_escape (flag_value fs ''doc'')) + length (html_escape (flag_value fs ''url''))"
    using main_parsed [OF assms(1)] main_flags_parsed_render [OF assms(2)]
    by (simp add: length_render_spec [of "html_escape _"] l0)
  show ?thesis
    unfolding out
    using length_html_escape_ge [of "flag_value fs ''name''"] length_html_escape_ge [of "flag_value fs ''doc''"]
      length_html_escape_ge [of "flag_value fs ''url''"] length_html_escape_le [of "flag_value fs ''name''"]
      length_html_escape_le [of "flag_value fs ''doc''"] length_html_escape_le [of "flag_value fs ''url''"]
    by (intro conjI) (linarith, simp add: distrib_left)
qed

theorem main_output_length_witness:
  "flag_parse cli_defaults [''-name='' @ ''a<b''] = Flags_parsed (cli_defaults(''name'' \<mapsto> ''a<b'')) [] \<and>
   flag_value (cli_defaults(''name'' \<mapsto> ''a<b'')) ''name'' \<noteq> [] \<and>
   182 + (3 * length (flag_value (cli_defaults(''name'' \<mapsto> ''a<b'')) ''name'') +
     length (flag_value (cli_defaults(''name'' \<mapsto> ''a<b'')) ''doc'') +
     length (flag_value (cli_defaults(''name'' \<mapsto> ''a<b'')) ''url''))
     \<le> length (stdout (main [''-name='' @ ''a<b''])) \<and>
   length (stdout (main [''-name='' @ ''a<b'']))
     \<le> 182 + 5 * (3 * length (flag_value (cli_defaults(''name'' \<mapsto> ''a<b'')) ''name'') +
       length (flag_value (cli_defaults(''name'' \<mapsto> ''a<b'')) ''doc'') +
       length (flag_value (cli_defaults(''name'' \<mapsto> ''a<b'')) ''url''))"
proof -
  note h1 = flag_parse_cli_name [of "''a<b''"]
  have h2: "flag_value (cli_defaults(''name'' \<mapsto> ''a<b'')) ''name'' \<noteq> []" by (simp add: flag_value_def)
  show ?thesis using h1 h2 main_output_length [OF h1 h2] by blast
qed

text \<open>
  C27. No command line can make the program write a markup character of its
  own: standard output never holds \<open><\<close>, \<open>>\<close>, \<open>+\<close> or NUL (the template has
  none and the escaper replaces them all in the values).
\<close>

theorem output_no_markup:
  "set (stdout (main args)) \<inter> {nul, CHR ''<'', CHR ''>'', CHR ''+''} = {}"
proof (cases args rule: main_cases)
  case (render fs rest)
  then show ?thesis by (simp only: render_spec_no_markup simp_thms world.select_convs)
next
  case no_name
  then show ?thesis by (simp add: name_error_def nul_def)
qed simp_all

text \<open>
  C28. What an HTML reader sees is the spec's rendering: for NUL-free values,
  decoding the character references in the output of main gives exactly the
  template with the three raw values spliced in.
\<close>

theorem main_output_unescapes:
  assumes "n \<noteq> []" and "nul \<notin> set n" and "nul \<notin> set d" and "nul \<notin> set u"
  shows "html_unescape (stdout (main [''-name='' @ n, ''-doc='' @ d, ''-url='' @ u])) = render_spec n d u"
proof -
  have "stdout (main [''-name='' @ n, ''-doc='' @ d, ''-url='' @ u]) =
      render_spec (html_escape n) (html_escape d) (html_escape u)"
    using main_parsed [OF flag_parse_cli_all [of n d u]] main_flags_parsed_render [of _] assms(1)
    by (simp add: flag_value_def)
  with html_unescape_render [OF assms(2-4)] show ?thesis by simp
qed

theorem main_output_unescapes_witness:
  "''A&B'' \<noteq> [] \<and> nul \<notin> set ''A&B'' \<and> nul \<notin> set ''<b>'' \<and> nul \<notin> set ''x+y'' \<and>
   html_unescape (stdout (main [''-name='' @ ''A&B'', ''-doc='' @ ''<b>'', ''-url='' @ ''x+y'']))
     = render_spec ''A&B'' ''<b>'' ''x+y''"
proof -
  have h1: "''A&B'' \<noteq> []" by simp
  have h2: "nul \<notin> set ''A&B''" and h3: "nul \<notin> set ''<b>''" and h4: "nul \<notin> set ''x+y''"
    by (simp_all add: nul_def)
  show ?thesis using h1 h2 h3 h4 main_output_unescapes [OF h1 h2 h3 h4] by blast
qed

end
